theory Spec2Isabelle
  imports Main "HOL-Library.AList"
begin

section \<open>Data model of the debugger server\<close>

text \<open>
  The server is one object (class NodeDebuggerServer) holding a process registry
  (a Map keyed by pid), the single debug session, the port cursor and the used-port set.
  A JavaScript Map is an association list with unique keys in insertion order:
  \<open>Map.get\<close> is \<open>map_of\<close>, \<open>Map.set\<close> is \<open>AList.update\<close> and \<open>Map.delete\<close> is
  \<open>AList.delete\<close>.  A JavaScript Set is the list of its elements in insertion order.
  Fields declared optional in the source (\<open>port?: number\<close>) are options, \<open>None\<close>
  standing for \<open>undefined\<close>.  Numbers are the integers the server
  handles (pids, ports, line numbers).  The ChildProcess handle of a registry entry is
  identified by its pid, and a protocol connection handle by a number.
\<close>

record ManagedProcess =
  pid :: nat
  port :: nat
  command :: string
  args :: "string list"
  startTime :: nat
  scriptPath :: string

record CallFrame =
  callFrameId :: string
  functionName :: string
  url :: string
  lineNumber :: nat
  columnNumber :: nat

record DebugSession =
  connected :: bool
  processId :: "nat option"
  session_port :: "nat option"
  callStack :: "CallFrame list option"
  variables :: "(string \<times> string) list option"
  client :: "nat option"
  breakpoints :: "(string \<times> string) list option"
  isPaused :: "bool option"
  currentExecutionContext :: "nat option"

record Server =
  managedProcesses :: "(nat \<times> ManagedProcess) list"
  debugSession :: DebugSession
  nextPort :: nat
  usedPorts :: "nat list"

text \<open>\<open>Set.add\<close> and \<open>Set.delete\<close>.\<close>

definition Set_add :: "'a \<Rightarrow> 'a list \<Rightarrow> 'a list" where
  "Set_add x xs = (if x \<in> set xs then xs else xs @ [x])"

definition Set_delete :: "'a \<Rightarrow> 'a list \<Rightarrow> 'a list" where
  "Set_delete x xs = removeAll x xs"

text \<open>The object literal \<open>{ connected: false }\<close>: every other field is undefined.\<close>

definition detached :: DebugSession where
  "detached = \<lparr>connected = False, processId = None, session_port = None, callStack = None,
     variables = None, client = None, breakpoints = None, isPaused = None,
     currentExecutionContext = None\<rparr>"

text \<open>The field initialisers of the class (and the session that cleanup installs).\<close>

definition fresh_session :: DebugSession where
  "fresh_session = detached\<lparr>breakpoints := Some [], isPaused := Some False\<rparr>"

definition initial :: Server where
  "initial = \<lparr>managedProcesses = [], debugSession = fresh_session, nextPort = 9229,
     usedPorts = []\<rparr>"

subsection \<open>Tool results and recorded effects\<close>

text \<open>
  A tool result is \<open>{ content: [{ type: "text", text }], isError }\<close>.  Each
  constructor of \<open>message\<close> is one template string of the source, holding the
  values interpolated into it.
\<close>

datatype jsvalue = JNull | JBool bool | JNum int | JStr string

datatype step_action = Next | Step | Continue | Out

datatype message =
    ScriptNotFound string
  | Started nat nat
  | ErrorStarting string
  | ProcessNotFound nat
  | Killed nat
  | ErrorKilling string
  | Attached nat
  | ErrorAttaching string
  | NoActiveSession
  | BreakpointSet string int "string option" string
  | BreakpointFailed string int
  | ErrorSettingBreakpoint string
  | Performed step_action
  | ErrorPerforming string
  | PausedOk
  | ErrorPausing string
  | EvalException string
  | EvalValue string jsvalue
  | ErrorEvaluating string

datatype ToolResult = ToolResult (content_text: message) (isError: bool)

text \<open>
  Calls that leave the server: spawning, signalling a child, and the requests sent
  over a protocol connection (the connection handle is the first argument).
\<close>

datatype effect =
    Spawn "string list" string
  | Sigterm nat
  | Client_close nat
  | CDP_connect nat
  | Debugger_enable nat
  | Runtime_enable nat
  | Debugger_pause nat
  | Runtime_runIfWaitingForDebugger nat
  | Debugger_setBreakpointByUrl nat int string "string option"
  | Debugger_stepOver nat
  | Debugger_stepInto nat
  | Debugger_resume nat
  | Debugger_stepOut nat
  | Debugger_evaluateOnCallFrame nat string string
  | Runtime_evaluate nat string "nat option"

text \<open>An awaited call either resolves with a value or rejects with an error text.\<close>

datatype 'a outcome = Resolves 'a | Rejects string

subsection \<open>Number to string\<close>

definition digit_char :: "nat \<Rightarrow> char" where
  "digit_char d = ''0123456789'' ! d"

fun digits :: "nat \<Rightarrow> string" where
  "digits n = (if n < 10 then [digit_char n] else digits (n div 10) @ [digit_char (n mod 10)])"

declare digits.simps [simp del]

definition show_int :: "int \<Rightarrow> string" where
  "show_int i = (if i < 0 then CHR ''-'' # digits (nat (- i)) else digits (nat i))"

section \<open>Asynchronous notifications\<close>

text \<open>
  Between two awaits the server runs without interruption; at an await, callbacks
  registered earlier may run.  These are the three protocol event handlers installed by
  attachDebugger and the exit observer installed by startNodeProcess on each child.
\<close>

datatype event =
    PausedEvt "CallFrame list"
  | ResumedEvt
  | ContextCreatedEvt nat
  | ExitEvt nat

definition onPaused :: "CallFrame list \<Rightarrow> Server \<Rightarrow> Server" where
  "onPaused frames s =
     s\<lparr>debugSession := (debugSession s)\<lparr>callStack := Some frames, isPaused := Some True\<rparr>\<rparr>"

definition onResumed :: "Server \<Rightarrow> Server" where
  "onResumed s =
     s\<lparr>debugSession := (debugSession s)\<lparr>isPaused := Some False, callStack := Some []\<rparr>\<rparr>"

definition onContextCreated :: "nat \<Rightarrow> Server \<Rightarrow> Server" where
  "onContextCreated c s =
     s\<lparr>debugSession := (debugSession s)\<lparr>currentExecutionContext := Some c\<rparr>\<rparr>"

text \<open>
  The exit observer of the child with pid \<open>p\<close>.  \<open>if (child.pid)\<close> is false for 0;
  the comparison \<open>debugSession.port === process.port\<close> is false for an undefined port.
\<close>

definition onExit :: "nat \<Rightarrow> Server \<Rightarrow> Server" where
  "onExit p s =
     (if p \<noteq> 0 then
        (case map_of (managedProcesses s) p of
           None \<Rightarrow> s
         | Some mp \<Rightarrow>
             (let s1 = s\<lparr>usedPorts := Set_delete (port mp) (usedPorts s),
                         managedProcesses := AList.delete p (managedProcesses s)\<rparr>
              in if session_port (debugSession s1) = Some (port mp)
                 then s1\<lparr>debugSession := detached\<rparr> else s1))
      else s)"

fun deliver :: "event \<Rightarrow> Server \<Rightarrow> Server" where
  "deliver (PausedEvt frames) s = onPaused frames s"
| "deliver ResumedEvt s = onResumed s"
| "deliver (ContextCreatedEvt c) s = onContextCreated c s"
| "deliver (ExitEvt p) s = onExit p s"

definition deliver_all :: "event list \<Rightarrow> Server \<Rightarrow> Server" where
  "deliver_all evs s = fold deliver evs s"

section \<open>Port allocator\<close>

text \<open>
  findAvailablePort scans upwards from the cursor:
  \<^verbatim>\<open>while (this.usedPorts.has(port) || !(await this.isPortAvailable(port))) port++\<close>.
  A port in the used-port set is skipped without a probe.  The probe opens a connection
  with \<open>net.createConnection\<close>, which refuses a port outside 0..65535 by throwing
  ERR_SOCKET_BAD_PORT; the throw rejects the probe, the scan, and the launch, whose
  await of the scan is outside its try block.  Below that bound what the probe answers
  is the operating system's, a parameter \<open>avail\<close>.
\<close>

function skip_used :: "nat list \<Rightarrow> nat \<Rightarrow> nat" where
  "skip_used used p = (if p \<in> set used then skip_used used (p + 1) else p)"
  by pat_completeness auto
termination
proof (relation "measure (\<lambda>(used, p). card {q \<in> set used. p \<le> q})")
  show "wf (measure (\<lambda>(used, p). card {q \<in> set used. p \<le> q}))" by simp
next
  fix used :: "nat list" and p :: nat
  assume "p \<in> set used"
  then have "p \<in> {q \<in> set used. p \<le> q} - {q \<in> set used. p + 1 \<le> q}" by simp
  moreover have "{q \<in> set used. p + 1 \<le> q} \<subseteq> {q \<in> set used. p \<le> q}" by auto
  ultimately have "{q \<in> set used. p + 1 \<le> q} \<subset> {q \<in> set used. p \<le> q}" by blast
  then have "card {q \<in> set used. p + 1 \<le> q} < card {q \<in> set used. p \<le> q}"
    by (intro psubset_card_mono) simp_all
  then show "((used, p + 1), (used, p)) \<in> measure (\<lambda>(used, p). card {q \<in> set used. p \<le> q})"
    by simp
qed

declare skip_used.simps [simp del]

text \<open>The scan with nothing else running meanwhile: \<open>None\<close> when the probe throws.\<close>

function scanPorts :: "(nat \<Rightarrow> bool) \<Rightarrow> nat list \<Rightarrow> nat \<Rightarrow> nat option" where
  "scanPorts avail used p =
     (if p \<in> set used then scanPorts avail used (p + 1)
      else if 65536 \<le> p then None
      else if avail p then Some p
      else scanPorts avail used (p + 1))"
  by pat_completeness auto
termination
proof (relation "measure (\<lambda>(avail, used, p). (65536 - p) + card {q \<in> set used. p \<le> q})")
  show "wf (measure (\<lambda>(avail, used, p). (65536 - p) + card {q \<in> set used. p \<le> q}))" by simp
next
  fix avail :: "nat \<Rightarrow> bool" and used :: "nat list" and p :: nat
  assume "p \<in> set used"
  then have "p \<in> {q \<in> set used. p \<le> q} - {q \<in> set used. p + 1 \<le> q}" by simp
  moreover have "{q \<in> set used. p + 1 \<le> q} \<subseteq> {q \<in> set used. p \<le> q}" by auto
  ultimately have "{q \<in> set used. p + 1 \<le> q} \<subset> {q \<in> set used. p \<le> q}" by blast
  then have "card {q \<in> set used. p + 1 \<le> q} < card {q \<in> set used. p \<le> q}"
    by (intro psubset_card_mono) simp_all
  then show "((avail, used, p + 1), (avail, used, p))
      \<in> measure (\<lambda>(avail, used, p). (65536 - p) + card {q \<in> set used. p \<le> q})"
    by simp
next
  fix avail :: "nat \<Rightarrow> bool" and used :: "nat list" and p :: nat
  assume "\<not> 65536 \<le> p"
  moreover have "{q \<in> set used. p + 1 \<le> q} \<subseteq> {q \<in> set used. p \<le> q}" by auto
  then have "card {q \<in> set used. p + 1 \<le> q} \<le> card {q \<in> set used. p \<le> q}"
    by (intro card_mono) simp_all
  ultimately show "((avail, used, p + 1), (avail, used, p))
      \<in> measure (\<lambda>(avail, used, p). (65536 - p) + card {q \<in> set used. p \<le> q})"
    by simp
qed

declare scanPorts.simps [simp del]

definition findAvailablePort :: "(nat \<Rightarrow> bool) \<Rightarrow> Server \<Rightarrow> (nat \<times> Server) option" where
  "findAvailablePort avail s =
     (case scanPorts avail (usedPorts s) (nextPort s) of
        None \<Rightarrow> None
      | Some p \<Rightarrow> Some (p, s\<lparr>nextPort := p + 1\<rparr>))"

section \<open>Process registry\<close>

record StartArgs =
  script :: string
  script_args :: "string list option"
  cwd :: "string option"

text \<open>
  What a launch reads from outside the server: the current directory, path resolution,
  the file system, the port probe, the clock, and what spawn gives back (it throws, or
  returns a child whose pid may be undefined).
\<close>

record StartEnv =
  process_cwd :: string
  resolve :: "string \<Rightarrow> string \<Rightarrow> string"
  existsSync :: "string \<Rightarrow> bool"
  isPortAvailable :: "nat \<Rightarrow> bool"
  spawn :: "nat option outcome"
  now :: nat

text \<open>\<open>args.cwd || process.cwd()\<close>: an undefined or empty cwd falls back.\<close>

definition workingDir :: "StartArgs \<Rightarrow> StartEnv \<Rightarrow> string" where
  "workingDir a e = (case cwd a of None \<Rightarrow> process_cwd e
                     | Some d \<Rightarrow> if d = [] then process_cwd e else d)"

definition nodeArgs :: "nat \<Rightarrow> StartArgs \<Rightarrow> string list" where
  "nodeArgs p a = (''--inspect-brk='' @ digits p) # script a #
                  (case script_args a of None \<Rightarrow> [] | Some xs \<Rightarrow> xs)"

definition register :: "nat \<Rightarrow> nat \<Rightarrow> StartArgs \<Rightarrow> StartEnv \<Rightarrow> Server \<Rightarrow> Server" where
  "register child p a e s =
     s\<lparr>usedPorts := Set_add p (usedPorts s),
       managedProcesses := AList.update child
         \<lparr>pid = child, port = p, command = ''node'', args = nodeArgs p a, startTime = now e,
          scriptPath = resolve e (workingDir a e) (script a)\<rparr> (managedProcesses s)\<rparr>"

text \<open>
  The launch from the spawn on, with port \<open>p\<close> found and the cursor already advanced.  A
  child without a pid (undefined, or 0) raises inside the try block and is reported.
\<close>

definition spawn_child ::
  "nat \<Rightarrow> StartArgs \<Rightarrow> StartEnv \<Rightarrow> Server \<Rightarrow> ToolResult \<times> Server \<times> effect list" where
  "spawn_child p a e s1 =
     (let eff = [Spawn (nodeArgs p a) (workingDir a e)] in
      case spawn e of
        Rejects err \<Rightarrow> (ToolResult (ErrorStarting err) True, s1, eff)
      | Resolves None \<Rightarrow>
          (ToolResult (ErrorStarting ''Error: Failed to start process'') True, s1, eff)
      | Resolves (Some child) \<Rightarrow>
          if child = 0
          then (ToolResult (ErrorStarting ''Error: Failed to start process'') True, s1, eff)
          else (ToolResult (Started child p) False, register child p a e s1, eff))"

text \<open>
  startNodeProcess with nothing else running during its port scan.  The result is \<open>None\<close>
  when the call rejects (the probe threw); the server state is then the one before the
  call.
\<close>

definition startNodeProcess ::
  "StartArgs \<Rightarrow> StartEnv \<Rightarrow> Server \<Rightarrow> (ToolResult \<times> Server \<times> effect list) option" where
  "startNodeProcess a e s =
     (let path = resolve e (workingDir a e) (script a) in
      if \<not> existsSync e path then Some (ToolResult (ScriptNotFound path) True, s, [])
      else
        (case findAvailablePort (isPortAvailable e) s of
           None \<Rightarrow> None
         | Some (p, s1) \<Rightarrow> Some (spawn_child p a e s1)))"

text \<open>
  killProcess.  \<open>kill\<close> is what \<open>process.kill("SIGTERM")\<close> does: \<open>Rejects\<close> when it throws.
  The function has no await, so nothing interleaves with it.
\<close>

definition killProcess :: "nat \<Rightarrow> unit outcome \<Rightarrow> Server \<Rightarrow> ToolResult \<times> Server \<times> effect list" where
  "killProcess p kill s =
     (case map_of (managedProcesses s) p of
        None \<Rightarrow> (ToolResult (ProcessNotFound p) True, s, [])
      | Some mp \<Rightarrow>
          (case kill of
             Rejects err \<Rightarrow> (ToolResult (ErrorKilling err) True, s, [Sigterm (pid mp)])
           | Resolves _ \<Rightarrow>
               (ToolResult (Killed p) False,
                s\<lparr>managedProcesses := AList.delete p (managedProcesses s)\<rparr>,
                [Sigterm (pid mp)])))"

section \<open>Debug session\<close>

subsection \<open>attachDebugger\<close>

text \<open>
  \<open>client.close()\<close> belongs to the protocol library (chrome-remote-interface), not to
  this repository.  Its promise has no rejecting path: it is fulfilled when the socket
  has closed, and at once when the connection was gone already.
\<close>

datatype closing = Closed | Already_gone

text \<open>
  What one attach call meets at each of its awaits: the outcome of the awaited call and
  the notifications that run while it is pending.  The two timers cannot reject.
\<close>

record AttachEnv =
  close :: closing
  during_close :: "event list"
  connect :: "nat outcome"
  during_connect :: "event list"
  debugger_enable :: "unit outcome"
  during_debugger_enable :: "event list"
  runtime_enable :: "unit outcome"
  during_runtime_enable :: "event list"
  pause :: "unit outcome"
  during_pause :: "event list"
  during_delay100 :: "event list"
  runIfWaiting :: "unit outcome"
  during_runIfWaiting :: "event list"
  during_delay200 :: "event list"

text \<open>The session object assigned under the comment "Initialize session".\<close>

definition attach_session :: "nat \<Rightarrow> nat \<Rightarrow> DebugSession" where
  "attach_session prt c = \<lparr>connected = True, processId = None, session_port = Some prt,
     callStack = Some [], variables = Some [], client = Some c, breakpoints = Some [],
     isPaused = Some False, currentExecutionContext = None\<rparr>"

text \<open>
  After the initialisation: the pause request with its 100 ms timer (skipped when the
  request rejects), the run-if-waiting request, and the 200 ms timer.  Both requests sit
  in their own try blocks with empty handlers.
\<close>

definition attach_settle :: "AttachEnv \<Rightarrow> Server \<Rightarrow> Server" where
  "attach_settle e s =
     (let s1 = deliver_all (during_pause e) s;
          s2 = (case pause e of Resolves _ \<Rightarrow> deliver_all (during_delay100 e) s1
                | Rejects _ \<Rightarrow> s1);
          s3 = deliver_all (during_runIfWaiting e) s2
      in deliver_all (during_delay200 e) s3)"

text \<open>
  From the connection on; every rejection before the initialisation reaches the outer
  handler.
\<close>

definition attach_open :: "nat \<Rightarrow> AttachEnv \<Rightarrow> Server \<Rightarrow> ToolResult \<times> Server \<times> effect list" where
  "attach_open prt e s =
     (let s1 = deliver_all (during_connect e) s in
      case connect e of
        Rejects err \<Rightarrow> (ToolResult (ErrorAttaching err) True, s1, [CDP_connect prt])
      | Resolves c \<Rightarrow>
          (let s2 = deliver_all (during_debugger_enable e) s1 in
           case debugger_enable e of
             Rejects err \<Rightarrow>
               (ToolResult (ErrorAttaching err) True, s2, [CDP_connect prt, Debugger_enable c])
           | Resolves _ \<Rightarrow>
               (let s3 = deliver_all (during_runtime_enable e) s2 in
                case runtime_enable e of
                  Rejects err \<Rightarrow>
                    (ToolResult (ErrorAttaching err) True, s3,
                     [CDP_connect prt, Debugger_enable c, Runtime_enable c])
                | Resolves _ \<Rightarrow>
                    (ToolResult (Attached prt) False,
                     attach_settle e (s3\<lparr>debugSession := attach_session prt c\<rparr>),
                     [CDP_connect prt, Debugger_enable c, Runtime_enable c, Debugger_pause c,
                      Runtime_runIfWaitingForDebugger c]))))"

definition attachDebugger :: "nat \<Rightarrow> AttachEnv \<Rightarrow> Server \<Rightarrow> ToolResult \<times> Server \<times> effect list" where
  "attachDebugger prt e s =
     (case client (debugSession s) of
        None \<Rightarrow> attach_open prt e s
      | Some old \<Rightarrow>
          (let s1 = deliver_all (during_close e) s in
           case attach_open prt e s1 of (r, s2, effs) \<Rightarrow> (r, s2, Client_close old # effs)))"

subsection \<open>Operations on the attached session\<close>

text \<open>The guard \<open>!connected || !client\<close> shared by the four debug operations.\<close>

definition active_client :: "Server \<Rightarrow> nat option" where
  "active_client s = (if connected (debugSession s) then client (debugSession s) else None)"

record BreakpointArgs =
  file_url :: string
  line :: int
  condition :: "string option"

definition breakpointKey :: "BreakpointArgs \<Rightarrow> string" where
  "breakpointKey a = file_url a @ '':'' @ show_int (line a)"

text \<open>
  setBreakpoint.  \<open>resp\<close> is the reply to Debugger.setBreakpointByUrl (the breakpointId,
  empty or undefined being falsy), \<open>during\<close> the notifications that run while it is
  awaited.  The table is read from the session as it is after the await; on a session
  without a table the \<open>set\<close> raises a TypeError inside the try block.
\<close>

definition setBreakpoint ::
  "BreakpointArgs \<Rightarrow> string option outcome \<Rightarrow> event list \<Rightarrow> Server \<Rightarrow> ToolResult \<times> Server \<times> effect list" where
  "setBreakpoint a resp during s =
     (case active_client s of
        None \<Rightarrow> (ToolResult NoActiveSession True, s, [])
      | Some c \<Rightarrow>
          (let eff = [Debugger_setBreakpointByUrl c (line a - 1) (file_url a) (condition a)];
               s1 = deliver_all during s
           in case resp of
                Rejects err \<Rightarrow> (ToolResult (ErrorSettingBreakpoint err) True, s1, eff)
              | Resolves None \<Rightarrow> (ToolResult (BreakpointFailed (file_url a) (line a)) True, s1, eff)
              | Resolves (Some bid) \<Rightarrow>
                  if bid = [] then (ToolResult (BreakpointFailed (file_url a) (line a)) True, s1, eff)
                  else
                    (case breakpoints (debugSession s1) of
                       None \<Rightarrow> (ToolResult (ErrorSettingBreakpoint ''TypeError'') True, s1, eff)
                     | Some tbl \<Rightarrow>
                         (ToolResult (BreakpointSet (file_url a) (line a) (condition a) bid) False,
                          s1\<lparr>debugSession := (debugSession s1)
                               \<lparr>breakpoints := Some (AList.update (breakpointKey a) bid tbl)\<rparr>\<rparr>,
                          eff))))"

fun step_request :: "step_action \<Rightarrow> nat \<Rightarrow> effect" where
  "step_request Next c = Debugger_stepOver c"
| "step_request Step c = Debugger_stepInto c"
| "step_request Continue c = Debugger_resume c"
| "step_request Out c = Debugger_stepOut c"

definition stepDebug :: "step_action \<Rightarrow> unit outcome \<Rightarrow> Server \<Rightarrow> ToolResult \<times> Server \<times> effect list" where
  "stepDebug act resp s =
     (case active_client s of
        None \<Rightarrow> (ToolResult NoActiveSession True, s, [])
      | Some c \<Rightarrow>
          (case resp of
             Rejects err \<Rightarrow> (ToolResult (ErrorPerforming err) True, s, [step_request act c])
           | Resolves _ \<Rightarrow> (ToolResult (Performed act) False, s, [step_request act c])))"

definition pauseExecution :: "unit outcome \<Rightarrow> Server \<Rightarrow> ToolResult \<times> Server \<times> effect list" where
  "pauseExecution resp s =
     (case active_client s of
        None \<Rightarrow> (ToolResult NoActiveSession True, s, [])
      | Some c \<Rightarrow>
          (case resp of
             Rejects err \<Rightarrow> (ToolResult (ErrorPausing err) True, s, [Debugger_pause c])
           | Resolves _ \<Rightarrow> (ToolResult PausedOk False, s, [Debugger_pause c])))"

subsection \<open>evaluateExpression\<close>

record RemoteObject =
  obj_value :: "jsvalue option"
  description :: "string option"

record EvalResult =
  eval_result :: RemoteObject
  exceptionDetails :: "RemoteObject option option"

text \<open>\<open>x || fallback\<close> on an optional string: undefined and the empty string are falsy.\<close>

definition or_else :: "string option \<Rightarrow> string \<Rightarrow> string" where
  "or_else x fallback = (case x of None \<Rightarrow> fallback | Some t \<Rightarrow> if t = [] then fallback else t)"

text \<open>
  The request chosen from the session: on the first call frame when isPaused is truthy
  and the call stack has an element, through the runtime with the stored context otherwise.
\<close>

definition evaluate_request :: "string \<Rightarrow> nat \<Rightarrow> DebugSession \<Rightarrow> effect" where
  "evaluate_request expr c d =
     (case (isPaused d, callStack d) of
        (Some True, Some (currentFrame # _)) \<Rightarrow>
          Debugger_evaluateOnCallFrame c (callFrameId currentFrame) expr
      | _ \<Rightarrow> Runtime_evaluate c expr (currentExecutionContext d))"

definition render_reply :: "string \<Rightarrow> EvalResult \<Rightarrow> ToolResult" where
  "render_reply expr r =
     (case exceptionDetails r of
        Some details \<Rightarrow>
          ToolResult (EvalException
            (or_else (case details of None \<Rightarrow> None | Some ex \<Rightarrow> description ex)
                     ''Unknown error'')) True
      | None \<Rightarrow>
          (case obj_value (eval_result r) of
             Some v \<Rightarrow> ToolResult (EvalValue expr v) False
           | None \<Rightarrow>
               ToolResult (EvalValue expr
                 (JStr (or_else (description (eval_result r)) ''[Object]''))) False))"

definition evaluateExpression ::
  "string \<Rightarrow> EvalResult outcome \<Rightarrow> Server \<Rightarrow> ToolResult \<times> Server \<times> effect list" where
  "evaluateExpression expr resp s =
     (case active_client s of
        None \<Rightarrow> (ToolResult NoActiveSession True, s, [])
      | Some c \<Rightarrow>
          (case resp of
             Rejects err \<Rightarrow>
               (ToolResult (ErrorEvaluating err) True, s, [evaluate_request expr c (debugSession s)])
           | Resolves r \<Rightarrow> (render_reply expr r, s, [evaluate_request expr c (debugSession s)])))"

subsection \<open>Shutdown\<close>

definition cleanup :: "Server \<Rightarrow> Server \<times> effect list" where
  "cleanup s =
     (s\<lparr>managedProcesses := [], usedPorts := [], debugSession := fresh_session\<rparr>,
      (case client (debugSession s) of None \<Rightarrow> [] | Some c \<Rightarrow> [Client_close c]) @
      map (\<lambda>(p, mp). Sigterm (pid mp)) (managedProcesses s))"

section \<open>Runs of the server\<close>

text \<open>
  Every tool handler is an async function: it runs without interruption up to its next
  await, is suspended there, and goes on when the awaited operation settles.  While it
  is suspended, notifications are handled and other tool calls start or go on.  A
  suspended call is a \<open>task\<close>: the await it sits at, with the local variables its
  continuation reads.  What the awaited operations answer is fixed by the environment
  given with the request.
\<close>

datatype reply = Reply ToolResult | Thrown string

datatype request =
    R_start StartArgs StartEnv
  | R_kill nat "unit outcome"
  | R_attach nat AttachEnv
  | R_setBreakpoint BreakpointArgs "string option outcome"
  | R_step step_action "unit outcome"
  | R_pause "unit outcome"
  | R_evaluate string "EvalResult outcome"

datatype task =
    T_probe StartArgs StartEnv nat
  | T_close nat AttachEnv
  | T_connect nat AttachEnv
  | T_debugger_enable nat AttachEnv nat
  | T_runtime_enable nat AttachEnv nat
  | T_pause nat AttachEnv nat
  | T_timer100 nat nat
  | T_runIfWaiting nat
  | T_timer200 nat
  | T_setBreakpoint BreakpointArgs "string option outcome" nat
  | T_reply ToolResult

datatype progress = Finished reply | Suspended task

subsection \<open>The segments of a launch\<close>

text \<open>
  From candidate \<open>p\<close> the scan skips the used ports and then either awaits the probe of
  the first unused one or, at 65536, ends the call with the probe's exception.  When the
  probe answers, the used-port set is read again as it is then.
\<close>

definition probe_next ::
  "StartArgs \<Rightarrow> StartEnv \<Rightarrow> nat \<Rightarrow> Server \<Rightarrow> progress \<times> Server \<times> effect list" where
  "probe_next a e p s =
     (let q = skip_used (usedPorts s) p in
      if 65536 \<le> q then (Finished (Thrown ''RangeError [ERR_SOCKET_BAD_PORT]''), s, [])
      else (Suspended (T_probe a e q), s, []))"

definition start_enter ::
  "StartArgs \<Rightarrow> StartEnv \<Rightarrow> Server \<Rightarrow> progress \<times> Server \<times> effect list" where
  "start_enter a e s =
     (let path = resolve e (workingDir a e) (script a) in
      if \<not> existsSync e path
      then (Finished (Reply (ToolResult (ScriptNotFound path) True)), s, [])
      else probe_next a e (nextPort s) s)"

definition start_probed ::
  "StartArgs \<Rightarrow> StartEnv \<Rightarrow> nat \<Rightarrow> Server \<Rightarrow> progress \<times> Server \<times> effect list" where
  "start_probed a e p s =
     (if isPortAvailable e p
      then (case spawn_child p a e (s\<lparr>nextPort := p + 1\<rparr>) of
              (r, s', effs) \<Rightarrow> (Finished (Reply r), s', effs))
      else probe_next a e (p + 1) s)"

subsection \<open>The segment of setBreakpoint after its await\<close>

definition setBreakpoint_reply ::
  "BreakpointArgs \<Rightarrow> string option outcome \<Rightarrow> Server \<Rightarrow> ToolResult \<times> Server" where
  "setBreakpoint_reply a resp s1 =
     (case resp of
        Rejects err \<Rightarrow> (ToolResult (ErrorSettingBreakpoint err) True, s1)
      | Resolves None \<Rightarrow> (ToolResult (BreakpointFailed (file_url a) (line a)) True, s1)
      | Resolves (Some bid) \<Rightarrow>
          if bid = [] then (ToolResult (BreakpointFailed (file_url a) (line a)) True, s1)
          else
            (case breakpoints (debugSession s1) of
               None \<Rightarrow> (ToolResult (ErrorSettingBreakpoint ''TypeError'') True, s1)
             | Some tbl \<Rightarrow>
                 (ToolResult (BreakpointSet (file_url a) (line a) (condition a) bid) False,
                  s1\<lparr>debugSession := (debugSession s1)
                       \<lparr>breakpoints := Some (AList.update (breakpointKey a) bid tbl)\<rparr>\<rparr>)))"

subsection \<open>Entering and resuming a call\<close>

text \<open>
  stepDebug, pauseExecution and evaluateExpression touch no state after their await, so
  their reply is known when the request is sent.
\<close>

definition send_only :: "Server \<Rightarrow> ToolResult \<times> Server \<times> effect list \<Rightarrow> progress \<times> Server \<times> effect list" where
  "send_only s res =
     (case res of (r, s', effs) \<Rightarrow>
        if active_client s = None then (Finished (Reply r), s, effs)
        else (Suspended (T_reply r), s, effs))"

fun enter :: "request \<Rightarrow> Server \<Rightarrow> progress \<times> Server \<times> effect list" where
  "enter (R_start a e) s = start_enter a e s"
| "enter (R_kill p k) s =
     (case killProcess p k s of (r, s', effs) \<Rightarrow> (Finished (Reply r), s', effs))"
| "enter (R_attach prt e) s =
     (case client (debugSession s) of
        Some old \<Rightarrow> (Suspended (T_close prt e), s, [Client_close old])
      | None \<Rightarrow> (Suspended (T_connect prt e), s, [CDP_connect prt]))"
| "enter (R_setBreakpoint a resp) s =
     (case active_client s of
        None \<Rightarrow> (Finished (Reply (ToolResult NoActiveSession True)), s, [])
      | Some c \<Rightarrow>
          (Suspended (T_setBreakpoint a resp c), s,
           [Debugger_setBreakpointByUrl c (line a - 1) (file_url a) (condition a)]))"
| "enter (R_step act resp) s = send_only s (stepDebug act resp s)"
| "enter (R_pause resp) s = send_only s (pauseExecution resp s)"
| "enter (R_evaluate expr resp) s = send_only s (evaluateExpression expr resp s)"

definition attach_failed :: "string \<Rightarrow> Server \<Rightarrow> progress \<times> Server \<times> effect list" where
  "attach_failed err s = (Finished (Reply (ToolResult (ErrorAttaching err) True)), s, [])"

fun resume :: "task \<Rightarrow> Server \<Rightarrow> progress \<times> Server \<times> effect list" where
  "resume (T_probe a e p) s = start_probed a e p s"
| "resume (T_close prt e) s = (Suspended (T_connect prt e), s, [CDP_connect prt])"
| "resume (T_connect prt e) s =
     (case connect e of
        Rejects err \<Rightarrow> attach_failed err s
      | Resolves c \<Rightarrow> (Suspended (T_debugger_enable prt e c), s, [Debugger_enable c]))"
| "resume (T_debugger_enable prt e c) s =
     (case debugger_enable e of
        Rejects err \<Rightarrow> attach_failed err s
      | Resolves _ \<Rightarrow> (Suspended (T_runtime_enable prt e c), s, [Runtime_enable c]))"
| "resume (T_runtime_enable prt e c) s =
     (case runtime_enable e of
        Rejects err \<Rightarrow> attach_failed err s
      | Resolves _ \<Rightarrow>
          (Suspended (T_pause prt e c), s\<lparr>debugSession := attach_session prt c\<rparr>,
           [Debugger_pause c]))"
| "resume (T_pause prt e c) s =
     (case pause e of
        Resolves _ \<Rightarrow> (Suspended (T_timer100 prt c), s, [])
      | Rejects _ \<Rightarrow> (Suspended (T_runIfWaiting prt), s, [Runtime_runIfWaitingForDebugger c]))"
| "resume (T_timer100 prt c) s =
     (Suspended (T_runIfWaiting prt), s, [Runtime_runIfWaitingForDebugger c])"
| "resume (T_runIfWaiting prt) s = (Suspended (T_timer200 prt), s, [])"
| "resume (T_timer200 prt) s = (Finished (Reply (ToolResult (Attached prt) False)), s, [])"
| "resume (T_setBreakpoint a resp c) s =
     (case setBreakpoint_reply a resp s of (r, s') \<Rightarrow> (Finished (Reply r), s', []))"
| "resume (T_reply r) s = (Finished (Reply r), s, [])"

subsection \<open>The server with its suspended calls\<close>

record System =
  server :: Server
  pending :: "(nat \<times> task) list"
  nextCall :: nat
  replies :: "(nat \<times> reply) list"
  sent :: "effect list"

definition boot :: System where
  "boot = \<lparr>server = initial, pending = [], nextCall = 0, replies = [], sent = []\<rparr>"

definition settle :: "nat \<Rightarrow> progress \<times> Server \<times> effect list \<Rightarrow> System \<Rightarrow> System" where
  "settle i res sys =
     (case res of
        (Finished r, s, effs) \<Rightarrow>
          sys\<lparr>server := s, pending := AList.delete i (pending sys),
              replies := replies sys @ [(i, r)], sent := sent sys @ effs\<rparr>
      | (Suspended t, s, effs) \<Rightarrow>
          sys\<lparr>server := s, pending := AList.update i t (pending sys), sent := sent sys @ effs\<rparr>)"

text \<open>
  A tool call arrives and gets the next call number; a suspended call goes on; a
  notification is handled; or the process is shut down, which runs cleanup and ends
  every suspended call.  Resuming a call that is not suspended does nothing.
\<close>

datatype action = Call request | Resume nat | Notify event | Shutdown

fun step :: "action \<Rightarrow> System \<Rightarrow> System" where
  "step (Call req) sys =
     settle (nextCall sys) (enter req (server sys)) (sys\<lparr>nextCall := nextCall sys + 1\<rparr>)"
| "step (Resume i) sys =
     (case map_of (pending sys) i of
        None \<Rightarrow> sys
      | Some t \<Rightarrow> settle i (resume t (server sys)) sys)"
| "step (Notify ev) sys = sys\<lparr>server := deliver ev (server sys)\<rparr>"
| "step Shutdown sys =
     sys\<lparr>server := fst (cleanup (server sys)), pending := [],
         sent := sent sys @ snd (cleanup (server sys))\<rparr>"

definition run :: "action list \<Rightarrow> System \<Rightarrow> System" where
  "run acts sys = fold step acts sys"

text \<open>
  The schedule under which an attach numbered \<open>i\<close> meets, at each of its awaits, the
  notifications its environment lists there and nothing else.
\<close>

definition settle_schedule :: "nat \<Rightarrow> AttachEnv \<Rightarrow> action list" where
  "settle_schedule i e =
     map Notify (during_pause e) @ [Resume i] @
     (case pause e of Resolves _ \<Rightarrow> map Notify (during_delay100 e) @ [Resume i]
      | Rejects _ \<Rightarrow> []) @
     map Notify (during_runIfWaiting e) @ [Resume i] @
     map Notify (during_delay200 e) @ [Resume i]"

definition open_schedule :: "nat \<Rightarrow> AttachEnv \<Rightarrow> action list" where
  "open_schedule i e =
     map Notify (during_connect e) @ [Resume i] @
     (case connect e of
        Rejects _ \<Rightarrow> []
      | Resolves _ \<Rightarrow>
          map Notify (during_debugger_enable e) @ [Resume i] @
          (case debugger_enable e of
             Rejects _ \<Rightarrow> []
           | Resolves _ \<Rightarrow>
               map Notify (during_runtime_enable e) @ [Resume i] @
               (case runtime_enable e of
                  Rejects _ \<Rightarrow> []
                | Resolves _ \<Rightarrow> settle_schedule i e)))"

definition attach_schedule :: "nat \<Rightarrow> AttachEnv \<Rightarrow> Server \<Rightarrow> action list" where
  "attach_schedule i e s =
     (case client (debugSession s) of
        None \<Rightarrow> open_schedule i e
      | Some old \<Rightarrow> map Notify (during_close e) @ [Resume i] @ open_schedule i e)"

section \<open>Notions used in the statements\<close>







text \<open>The ports recorded in the registry, in registry order.\<close>

definition registry_ports :: "Server \<Rightarrow> nat list" where
  "registry_ports s = map (\<lambda>(p, mp). port mp) (managedProcesses s)"



text \<open>The execution context a run observed last: that of its last context notification.\<close>

fun observe_context :: "action \<Rightarrow> nat option \<Rightarrow> nat option" where
  "observe_context (Notify (ContextCreatedEvt c)) seen = Some c"
| "observe_context _ seen = seen"

definition last_context :: "action list \<Rightarrow> nat option" where
  "last_context acts = fold observe_context acts None"

section \<open>A concrete scenario\<close>

text \<open>
  The scenario of the specification: the script a.js in /tmp is launched, the child gets
  pid 4242 and the first port 9229, and a breakpoint is asked for at line 5.
\<close>

definition example_args :: StartArgs where
  "example_args = \<lparr>script = ''a.js'', script_args = None, cwd = Some ''/tmp''\<rparr>"

definition example_env :: "bool \<Rightarrow> StartEnv" where
  "example_env present = \<lparr>process_cwd = ''/srv'', resolve = (\<lambda>d f. d @ ''/'' @ f),
     existsSync = (\<lambda>_. present), isPortAvailable = (\<lambda>_. True),
     spawn = Resolves (Some 4242), now = 0\<rparr>"

definition example_breakpoint :: BreakpointArgs where
  "example_breakpoint = \<lparr>file_url = ''file:///tmp/a.js'', line = 5, condition = None\<rparr>"

definition launched :: Server where
  "launched = \<lparr>managedProcesses = [(4242, \<lparr>pid = 4242, port = 9229, command = ''node'',
       args = [''--inspect-brk=9229'', ''a.js''], startTime = 0, scriptPath = ''/tmp/a.js''\<rparr>)],
     debugSession = fresh_session, nextPort = 9230, usedPorts = [9229]\<rparr>"

text \<open>
  An attach during which the debuggee sends nothing but the context notification that
  answers Runtime.enable; the same attach with a pause notification in the last timer;
  and one that finds the previous connection gone already.
\<close>

definition quiet_attach :: AttachEnv where
  "quiet_attach = \<lparr>close = Closed, during_close = [], connect = Resolves 1,
     during_connect = [], debugger_enable = Resolves (), during_debugger_enable = [],
     runtime_enable = Resolves (), during_runtime_enable = [ContextCreatedEvt 1],
     pause = Resolves (), during_pause = [], during_delay100 = [],
     runIfWaiting = Resolves (), during_runIfWaiting = [], during_delay200 = []\<rparr>"

definition example_frame :: CallFrame where
  "example_frame = \<lparr>callFrameId = ''frame-0'', functionName = ''main'',
     url = ''file:///tmp/a.js'', lineNumber = 0, columnNumber = 0\<rparr>"



text \<open>
  The server after the launch and a quiet attach; the same paused on one frame; the same
  holding one breakpoint.
\<close>

definition attached :: Server where
  "attached = launched\<lparr>debugSession := attach_session 9229 1\<rparr>"

definition paused :: Server where
  "paused = launched\<lparr>debugSession := (attach_session 9229 1)
     \<lparr>callStack := Some [example_frame], isPaused := Some True\<rparr>\<rparr>"

definition with_breakpoint :: Server where
  "with_breakpoint = launched\<lparr>debugSession := (attach_session 9229 1)
     \<lparr>breakpoints := Some [(''file:///tmp/a.js:5'', ''1:0'')]\<rparr>\<rparr>"

text \<open>A second launch of the same script, whose child gets pid 4243.\<close>

definition second_env :: StartEnv where
  "second_env = (example_env True)\<lparr>spawn := Resolves (Some 4243)\<rparr>"

text \<open>
  The schedules of the scenario: the launch with its one probe; the quiet attach, call
  number 1, with its awaits in order; and two launches whose probes overlap.
\<close>

definition launch_calls :: "action list" where
  "launch_calls = [Call (R_start example_args (example_env True)), Resume 0]"

definition quiet_attach_calls :: "action list" where
  "quiet_attach_calls = Call (R_attach 9229 quiet_attach) # attach_schedule 1 quiet_attach launched"

definition racing_launches :: "action list" where
  "racing_launches = [Call (R_start example_args (example_env True)),
     Call (R_start example_args second_env), Resume 0, Resume 1]"

definition number_reply :: EvalResult where
  "number_reply = \<lparr>eval_result = \<lparr>obj_value = Some (JNum 3), description = Some ''3''\<rparr>,
     exceptionDetails = None\<rparr>"

section \<open>Evaluation lemmas\<close>

lemma digits_9229: "digits 9229 = ''9229''"
  by (simp add: digits.simps digit_char_def)

lemma show_int_5: "show_int 5 = ''5''"
  by (simp add: show_int_def digits.simps digit_char_def)


lemma skip_used_fresh: "p \<notin> set used \<Longrightarrow> skip_used used p = p"
  by (simp add: skip_used.simps)


lemma deliver_all_Nil [simp]: "deliver_all [] s = s"
  by (simp add: deliver_all_def)

lemma deliver_all_Cons [simp]: "deliver_all (ev # evs) s = deliver_all evs (deliver ev s)"
  by (simp add: deliver_all_def)



section \<open>Structure of an attach\<close>









lemma attach_quiet:
  "attachDebugger 9229 quiet_attach launched =
     (ToolResult (Attached 9229) False, attached,
      [CDP_connect 9229, Debugger_enable 1, Runtime_enable 1, Debugger_pause 1,
       Runtime_runIfWaitingForDebugger 1])"
  by (simp add: attachDebugger_def attach_open_def attach_settle_def quiet_attach_def
      launched_def attached_def fresh_session_def detached_def onContextCreated_def)



section \<open>Steps and runs\<close>

lemma run_Nil [simp]: "run [] sys = sys"
  by (simp add: run_def)

lemma run_Cons [simp]: "run (a # acts) sys = run acts (step a sys)"
  by (simp add: run_def)

lemma run_append: "run (xs @ ys) sys = run ys (run xs sys)"
  by (simp add: run_def)

lemma run_snoc: "run (acts @ [a]) sys = step a (run acts sys)"
  by (simp add: run_def)

lemma run_notify: "run (map Notify evs) sys = sys\<lparr>server := deliver_all evs (server sys)\<rparr>"
  by (induction evs arbitrary: sys) simp_all

lemma server_settle [simp]: "server (settle i res sys) = fst (snd res)"
  by (cases res; cases "fst res") (auto simp: settle_def)

lemma spawn_child_session: "debugSession (fst (snd (spawn_child p a e s))) = debugSession s"
  by (simp add: spawn_child_def register_def Let_def split: outcome.splits option.splits)

lemma probe_next_server: "fst (snd (probe_next a e p s)) = s"
  by (simp add: probe_next_def Let_def)

lemma start_probed_session: "debugSession (fst (snd (start_probed a e p s))) = debugSession s"
proof (cases "isPortAvailable e p")
  case True
  obtain r s' effs where sc: "spawn_child p a e (s\<lparr>nextPort := p + 1\<rparr>) = (r, s', effs)"
    by (cases "spawn_child p a e (s\<lparr>nextPort := p + 1\<rparr>)") auto
  with spawn_child_session [of p a e "s\<lparr>nextPort := p + 1\<rparr>"]
  have "debugSession s' = debugSession s" by simp
  with True sc show ?thesis by (simp add: start_probed_def)
next
  case False
  then show ?thesis by (simp add: start_probed_def probe_next_server)
qed

lemma killProcess_session: "debugSession (fst (snd (killProcess p k s))) = debugSession s"
  by (simp add: killProcess_def split: option.splits outcome.splits)

lemma send_only_server: "fst (snd (send_only s res)) = s"
  by (simp add: send_only_def split: prod.splits)

lemma enter_session: "debugSession (fst (snd (enter req s))) = debugSession s"
proof (cases req)
  case (R_start a e)
  then show ?thesis by (simp add: start_enter_def Let_def probe_next_server)
next
  case (R_kill p k)
  obtain r s' effs where kp: "killProcess p k s = (r, s', effs)"
    by (cases "killProcess p k s") auto
  with killProcess_session [of p k s] have "debugSession s' = debugSession s" by simp
  with R_kill kp show ?thesis by simp
qed (simp_all add: send_only_server split: option.splits)

lemma setBreakpoint_reply_session:
  "debugSession (snd (setBreakpoint_reply a resp s)) = debugSession s
   \<or> (\<exists>v t. breakpoints (debugSession s) = Some t \<and>
         debugSession (snd (setBreakpoint_reply a resp s)) =
           (debugSession s)\<lparr>breakpoints := Some (AList.update (breakpointKey a) v t)\<rparr>)"
  by (auto simp: setBreakpoint_reply_def split: outcome.splits option.splits)

lemma resume_session:
  "debugSession (fst (snd (resume t s))) = debugSession s
   \<or> (\<exists>prt c. debugSession (fst (snd (resume t s))) = attach_session prt c)
   \<or> (\<exists>k v tbl. breakpoints (debugSession s) = Some tbl \<and>
         debugSession (fst (snd (resume t s))) =
           (debugSession s)\<lparr>breakpoints := Some (AList.update k v tbl)\<rparr>)"
proof (cases t)
  case (T_probe a e p)
  then show ?thesis by (simp add: start_probed_session)
next
  case (T_setBreakpoint a resp c)
  with setBreakpoint_reply_session [of a resp s] show ?thesis
    by (auto split: prod.splits)
qed (auto simp: attach_failed_def split: outcome.splits)

text \<open>What a step can do to the session object.\<close>

lemma step_session:
  "(\<exists>ev. a = Notify ev \<and> server (step a sys) = deliver ev (server sys))
   \<or> (\<forall>ev. a \<noteq> Notify ev) \<and>
      (debugSession (server (step a sys)) = debugSession (server sys)
       \<or> (\<exists>prt c. debugSession (server (step a sys)) = attach_session prt c)
       \<or> (\<exists>k v tbl. breakpoints (debugSession (server sys)) = Some tbl \<and>
             debugSession (server (step a sys)) =
               (debugSession (server sys))\<lparr>breakpoints := Some (AList.update k v tbl)\<rparr>)
       \<or> debugSession (server (step a sys)) = fresh_session)"
proof (cases a)
  case (Call req)
  then show ?thesis by (simp add: enter_session)
next
  case (Resume i)
  show ?thesis
  proof (cases "map_of (pending sys) i")
    case None
    with Resume show ?thesis by simp
  next
    case (Some t)
    with Resume have "server (step a sys) = fst (snd (resume t (server sys)))" by simp
    with Resume resume_session [of t "server sys"] show ?thesis by auto
  qed
next
  case (Notify ev)
  then show ?thesis by simp
next
  case Shutdown
  then show ?thesis by (simp add: cleanup_def)
qed

lemma onExit_session:
  "debugSession (onExit p s) = debugSession s \<or> debugSession (onExit p s) = detached"
  by (simp add: onExit_def Let_def split: option.splits)

lemma deliver_breakpoints:
  "breakpoints (debugSession (deliver ev s)) = breakpoints (debugSession s)
   \<or> breakpoints (debugSession (deliver ev s)) = None"
proof (cases ev)
  case (ExitEvt p)
  from onExit_session [of p s] show ?thesis
    unfolding ExitEvt by (auto simp: detached_def)
qed (simp_all add: onPaused_def onResumed_def onContextCreated_def)

lemma deliver_all_breakpoints:
  assumes "breakpoints (debugSession (deliver_all evs s)) = Some t"
  shows "breakpoints (debugSession s) = Some t"
  using assms
proof (induction evs arbitrary: s)
  case Nil
  then show ?case by simp
next
  case (Cons ev evs)
  then have "breakpoints (debugSession (deliver ev s)) = Some t" by simp
  with deliver_breakpoints [of ev s] show ?case by auto
qed

text \<open>The keys of the breakpoint table stay pairwise distinct.\<close>

lemma breakpoint_keys_distinct:
  assumes "breakpoints (debugSession (server (run acts boot))) = Some t"
  shows "distinct (map fst t)"
  using assms
proof (induction acts arbitrary: t rule: rev_induct)
  case Nil
  then show ?case by (simp add: boot_def initial_def fresh_session_def detached_def)
next
  case (snoc a acts)
  let ?sys = "run acts boot"
  from snoc.prems have now: "breakpoints (debugSession (server (step a ?sys))) = Some t"
    by (simp add: run_snoc)
  from step_session [of a ?sys] show ?case
  proof (elim disjE exE conjE)
    fix ev
    assume "server (step a ?sys) = deliver ev (server ?sys)"
    with now deliver_breakpoints [of ev "server ?sys"]
    have "breakpoints (debugSession (server ?sys)) = Some t" by auto
    then show ?thesis by (rule snoc.IH)
  next
    assume "debugSession (server (step a ?sys)) = debugSession (server ?sys)"
    with now have "breakpoints (debugSession (server ?sys)) = Some t" by simp
    then show ?thesis by (rule snoc.IH)
  next
    fix prt c
    assume "debugSession (server (step a ?sys)) = attach_session prt c"
    with now show ?thesis by (simp add: attach_session_def)
  next
    fix k v tbl
    assume tbl: "breakpoints (debugSession (server ?sys)) = Some tbl"
      and "debugSession (server (step a ?sys)) =
             (debugSession (server ?sys))\<lparr>breakpoints := Some (AList.update k v tbl)\<rparr>"
    with now have t: "t = AList.update k v tbl" by simp
    from tbl have "distinct (map fst tbl)" by (rule snoc.IH)
    then show ?thesis unfolding t by (rule AList.distinct_update)
  next
    assume "debugSession (server (step a ?sys)) = fresh_session"
    with now show ?thesis by (simp add: fresh_session_def detached_def)
  qed
qed

section \<open>Segments and whole calls\<close>

lemma run_single [simp]: "run [a] sys = step a sys"
  by (simp add: run_def)

lemma settle_suspended [simp]:
  "settle i (Suspended t, s, effs) sys =
     sys\<lparr>server := s, pending := AList.update i t (pending sys), sent := sent sys @ effs\<rparr>"
  by (simp add: settle_def)

lemma settle_finished [simp]:
  "settle i (Finished r, s, effs) sys =
     sys\<lparr>server := s, pending := AList.delete i (pending sys),
         replies := replies sys @ [(i, r)], sent := sent sys @ effs\<rparr>"
  by (simp add: settle_def)

lemma settle_schedule_run:
  assumes "map_of (pending sys) i = Some (T_pause prt e c)"
  shows "server (run (settle_schedule i e) sys) = attach_settle e (server sys)"
    and "pending (run (settle_schedule i e) sys) = AList.delete i (pending sys)"
    and "nextCall (run (settle_schedule i e) sys) = nextCall sys"
  using assms
  by (cases "pause e";
      simp add: settle_schedule_def run_append run_notify attach_settle_def
        AList.update_conv' AList.delete_update_same)+

lemma open_schedule_run:
  assumes "map_of (pending sys) i = Some (T_connect prt e)"
  shows "server (run (open_schedule i e) sys) = fst (snd (attach_open prt e (server sys)))"
    and "pending (run (open_schedule i e) sys) = AList.delete i (pending sys)"
    and "nextCall (run (open_schedule i e) sys) = nextCall sys"
proof -
  let ?s1 = "deliver_all (during_connect e) (server sys)"
  let ?s2 = "deliver_all (during_debugger_enable e) ?s1"
  let ?s3 = "deliver_all (during_runtime_enable e) ?s2"
  have "server (run (open_schedule i e) sys) = fst (snd (attach_open prt e (server sys)))
      \<and> pending (run (open_schedule i e) sys) = AList.delete i (pending sys)
      \<and> nextCall (run (open_schedule i e) sys) = nextCall sys"
  proof (cases "connect e")
    case (Rejects err)
    with assms show ?thesis
      by (simp add: open_schedule_def run_append run_notify attach_open_def attach_failed_def)
  next
    case c: (Resolves c)
    show ?thesis
    proof (cases "debugger_enable e")
      case (Rejects err)
      with assms c show ?thesis
        by (simp add: open_schedule_def run_append run_notify attach_open_def attach_failed_def
            AList.update_conv' AList.delete_update_same)
    next
      case d: (Resolves u)
      show ?thesis
      proof (cases "runtime_enable e")
        case (Rejects err)
        with assms c d show ?thesis
          by (simp add: open_schedule_def run_append run_notify attach_open_def attach_failed_def
              AList.update_conv' AList.delete_update_same)
      next
        case r: (Resolves v)
        let ?sys3 = "sys\<lparr>server := ?s3\<lparr>debugSession := attach_session prt c\<rparr>,
            pending := AList.update i (T_pause prt e c) (pending sys),
            sent := sent sys @ [Debugger_enable c, Runtime_enable c, Debugger_pause c]\<rparr>"
        have pre: "run (open_schedule i e) sys = run (settle_schedule i e) ?sys3"
          using assms c d r
          by (simp add: open_schedule_def run_append run_notify AList.update_conv')
        have p3: "map_of (pending ?sys3) i = Some (T_pause prt e c)"
          by (simp add: AList.update_conv')
        from settle_schedule_run [OF p3] pre c d r show ?thesis
          by (simp add: attach_open_def AList.delete_update_same)
      qed
    qed
  qed
  then show "server (run (open_schedule i e) sys) = fst (snd (attach_open prt e (server sys)))"
    and "pending (run (open_schedule i e) sys) = AList.delete i (pending sys)"
    and "nextCall (run (open_schedule i e) sys) = nextCall sys"
    by simp_all
qed

text \<open>
  Under the schedule in which only its own notifications interleave, the segments of an
  attach compute what attachDebugger computes.
\<close>

lemma attach_schedule_run:
  assumes "map_of (pending sys) (nextCall sys) = None"
  shows "server (run (Call (R_attach prt e) # attach_schedule (nextCall sys) e (server sys)) sys) =
           fst (snd (attachDebugger prt e (server sys)))"
    and "pending (run (Call (R_attach prt e) # attach_schedule (nextCall sys) e (server sys)) sys) =
           pending sys"
    and "nextCall (run (Call (R_attach prt e) # attach_schedule (nextCall sys) e (server sys)) sys) =
           nextCall sys + 1"
proof -
  let ?i = "nextCall sys"
  from assms have notin: "?i \<notin> fst ` set (pending sys)"
    by (simp add: map_of_eq_None_iff)
  have "server (run (Call (R_attach prt e) # attach_schedule ?i e (server sys)) sys) =
           fst (snd (attachDebugger prt e (server sys)))
      \<and> pending (run (Call (R_attach prt e) # attach_schedule ?i e (server sys)) sys) = pending sys
      \<and> nextCall (run (Call (R_attach prt e) # attach_schedule ?i e (server sys)) sys) = ?i + 1"
  proof (cases "client (debugSession (server sys))")
    case None
    let ?sys1 = "sys\<lparr>nextCall := ?i + 1, server := server sys,
        pending := AList.update ?i (T_connect prt e) (pending sys),
        sent := sent sys @ [CDP_connect prt]\<rparr>"
    have pre: "run (Call (R_attach prt e) # attach_schedule ?i e (server sys)) sys =
        run (open_schedule ?i e) ?sys1"
      using None by (simp add: attach_schedule_def)
    have p1: "map_of (pending ?sys1) ?i = Some (T_connect prt e)"
      by (simp add: AList.update_conv')
    from open_schedule_run [OF p1] pre None notin show ?thesis
      by (simp add: attachDebugger_def AList.delete_update_same)
  next
    case (Some old)
    let ?sys2 = "sys\<lparr>nextCall := ?i + 1, server := deliver_all (during_close e) (server sys),
        pending := AList.update ?i (T_connect prt e) (pending sys),
        sent := sent sys @ [Client_close old, CDP_connect prt]\<rparr>"
    have pre: "run (Call (R_attach prt e) # attach_schedule ?i e (server sys)) sys =
        run (open_schedule ?i e) ?sys2"
      using Some by (simp add: attach_schedule_def run_append run_notify AList.update_conv')
    have p2: "map_of (pending ?sys2) ?i = Some (T_connect prt e)"
      by (simp add: AList.update_conv')
    from open_schedule_run [OF p2] pre Some notin show ?thesis
      by (simp add: attachDebugger_def AList.delete_update_same split: prod.splits)
  qed
  then show "server (run (Call (R_attach prt e) # attach_schedule ?i e (server sys)) sys) =
           fst (snd (attachDebugger prt e (server sys)))"
    and "pending (run (Call (R_attach prt e) # attach_schedule ?i e (server sys)) sys) = pending sys"
    and "nextCall (run (Call (R_attach prt e) # attach_schedule ?i e (server sys)) sys) = ?i + 1"
    by simp_all
qed

section \<open>The scenario on the machine\<close>

lemma run_launch:
  "server (run launch_calls boot) = launched"
  "pending (run launch_calls boot) = []"
  "nextCall (run launch_calls boot) = 1"
  by (simp_all add: launch_calls_def boot_def start_enter_def probe_next_def start_probed_def
      spawn_child_def example_args_def example_env_def initial_def workingDir_def register_def
      nodeArgs_def digits_9229 launched_def Set_add_def skip_used_fresh)

lemma run_quiet_attach:
  "server (run (launch_calls @ quiet_attach_calls) boot) = attached"
  "pending (run (launch_calls @ quiet_attach_calls) boot) = []"
  "nextCall (run (launch_calls @ quiet_attach_calls) boot) = 2"
proof -
  let ?sys = "run launch_calls boot"
  have fresh: "map_of (pending ?sys) (nextCall ?sys) = None"
    by (simp add: run_launch)
  have calls: "quiet_attach_calls =
      Call (R_attach 9229 quiet_attach) # attach_schedule (nextCall ?sys) quiet_attach (server ?sys)"
    by (simp add: quiet_attach_calls_def run_launch)
  from attach_schedule_run [OF fresh, of 9229 quiet_attach]
  show "server (run (launch_calls @ quiet_attach_calls) boot) = attached"
    "pending (run (launch_calls @ quiet_attach_calls) boot) = []"
    "nextCall (run (launch_calls @ quiet_attach_calls) boot) = 2"
    unfolding run_append calls by (simp_all add: run_launch attach_quiet)
qed

lemma quiet_attach_calls_list:
  "quiet_attach_calls = [Call (R_attach 9229 quiet_attach), Resume 1, Resume 1,
     Notify (ContextCreatedEvt 1), Resume 1, Resume 1, Resume 1, Resume 1, Resume 1]"
  by (simp add: quiet_attach_calls_def attach_schedule_def open_schedule_def settle_schedule_def
      quiet_attach_def launched_def fresh_session_def detached_def)

lemma run_racing:
  "server (run racing_launches boot) =
     \<lparr>managedProcesses =
        [(4242, \<lparr>pid = 4242, port = 9229, command = ''node'',
            args = [''--inspect-brk=9229'', ''a.js''], startTime = 0, scriptPath = ''/tmp/a.js''\<rparr>),
         (4243, \<lparr>pid = 4243, port = 9229, command = ''node'',
            args = [''--inspect-brk=9229'', ''a.js''], startTime = 0, scriptPath = ''/tmp/a.js''\<rparr>)],
      debugSession = fresh_session, nextPort = 9230, usedPorts = [9229]\<rparr>"
  "replies (run racing_launches boot) =
     [(0, Reply (ToolResult (Started 4242 9229) False)),
      (1, Reply (ToolResult (Started 4243 9229) False))]"
  by (simp_all add: racing_launches_def boot_def start_enter_def probe_next_def start_probed_def
      spawn_child_def example_args_def example_env_def second_env_def initial_def workingDir_def
      register_def nodeArgs_def digits_9229 Set_add_def skip_used_fresh)

section \<open>Pause state along a run\<close>







section \<open>Notifications during an attach\<close>










section \<open>Breakpoint table\<close>

lemma setBreakpoint_success:
  assumes "setBreakpoint a resp during s = (ToolResult (BreakpointSet f l c bid) False, s', eff)"
  shows "\<exists>t. breakpoints (debugSession (deliver_all during s)) = Some t
           \<and> breakpoints (debugSession s') = Some (AList.update (breakpointKey a) bid t)
           \<and> resp = Resolves (Some bid)"
  using assms
  by (auto simp: setBreakpoint_def Let_def split: option.splits outcome.splits if_splits)

lemma length_update_present:
  assumes "map_of t k = Some v"
  shows "length (AList.update k v' t) = length t"
  using assms by (induction t) (auto split: if_splits)

lemma one_entry_per_key:
  assumes "distinct (map fst t)" and "map_of t k = Some v"
  shows "length (filter (\<lambda>kv. fst kv = k) t) = 1"
  using assms
proof (induction t)
  case Nil
  then show ?case by simp
next
  case (Cons x t)
  show ?case
  proof (cases "fst x = k")
    case True
    with Cons.prems(1) have "k \<notin> fst ` set t" by simp
    then have "filter (\<lambda>kv. fst kv = k) t = []"
      by (force simp: filter_empty_conv)
    with True show ?thesis by simp
  next
    case False
    with Cons show ?thesis by (cases x) auto
  qed
qed

lemma key_example: "breakpointKey example_breakpoint = ''file:///tmp/a.js:5''"
  by (simp add: breakpointKey_def example_breakpoint_def show_int_5)

lemma first_breakpoint:
  "setBreakpoint example_breakpoint (Resolves (Some ''1:0'')) [] attached =
     (ToolResult (BreakpointSet ''file:///tmp/a.js'' 5 None ''1:0'') False, with_breakpoint,
      [Debugger_setBreakpointByUrl 1 4 ''file:///tmp/a.js'' None])"
  by (simp add: setBreakpoint_def active_client_def attached_def with_breakpoint_def
      attach_session_def key_example)
     (simp add: example_breakpoint_def)

lemma second_breakpoint:
  "setBreakpoint (example_breakpoint\<lparr>condition := Some ''x > 1''\<rparr>) (Resolves (Some ''2:0'')) []
       with_breakpoint =
     (ToolResult (BreakpointSet ''file:///tmp/a.js'' 5 (Some ''x > 1'') ''2:0'') False,
      with_breakpoint\<lparr>debugSession := (debugSession with_breakpoint)
        \<lparr>breakpoints := Some [(''file:///tmp/a.js:5'', ''2:0'')]\<rparr>\<rparr>,
      [Debugger_setBreakpointByUrl 1 4 ''file:///tmp/a.js'' (Some ''x > 1'')])"
proof -
  have k: "breakpointKey (example_breakpoint\<lparr>condition := Some ''x > 1''\<rparr>) = ''file:///tmp/a.js:5''"
    using key_example by (simp add: breakpointKey_def)
  show ?thesis
    by (simp add: setBreakpoint_def active_client_def with_breakpoint_def attach_session_def k)
       (simp add: example_breakpoint_def)
qed

section \<open>Further evaluations on the scenario\<close>

lemma operations_attached:
  "stepDebug Continue (Resolves ()) paused =
     (ToolResult (Performed Continue) False, paused, [Debugger_resume 1])"
  "stepDebug Next (Rejects ''closed'') paused =
     (ToolResult (ErrorPerforming ''closed'') True, paused, [Debugger_stepOver 1])"
  "pauseExecution (Resolves ()) attached = (ToolResult PausedOk False, attached, [Debugger_pause 1])"
  "killProcess 4242 (Resolves ()) launched =
     (ToolResult (Killed 4242) False, launched\<lparr>managedProcesses := []\<rparr>, [Sigterm 4242])"
  by (simp_all add: stepDebug_def pauseExecution_def killProcess_def active_client_def
      paused_def attached_def launched_def attach_session_def)

lemma run_shutdown:
  "server (run (launch_calls @ quiet_attach_calls @ [Shutdown]) boot) = initial\<lparr>nextPort := 9230\<rparr>"
  "snd (cleanup attached) = [Client_close 1, Sigterm 4242]"
proof -
  have "server (run ((launch_calls @ quiet_attach_calls) @ [Shutdown]) boot) =
      initial\<lparr>nextPort := 9230\<rparr>"
    unfolding run_append [of "launch_calls @ quiet_attach_calls"]
    by (simp add: run_quiet_attach)
       (simp add: cleanup_def attached_def launched_def initial_def)
  then show "server (run (launch_calls @ quiet_attach_calls @ [Shutdown]) boot) =
      initial\<lparr>nextPort := 9230\<rparr>"
    by simp
  show "snd (cleanup attached) = [Client_close 1, Sigterm 4242]"
    by (simp add: cleanup_def attached_def launched_def attach_session_def)
qed

section \<open>The calls as runs of the machine\<close>

text \<open>
  The functions that describe a whole call (startNodeProcess, setBreakpoint, stepDebug,
  pauseExecution, evaluateExpression) are the machine run under the schedule in which
  nothing but the listed notifications happens between the call and its continuation.
\<close>

lemma skip_used_notin: "skip_used used p \<notin> set used"
  by (induction used p rule: skip_used.induct) (subst skip_used.simps, simp)

lemma skip_used_ge: "p \<le> skip_used used p"
proof (induction used p rule: skip_used.induct)
  case (1 used p)
  show ?case
  proof (cases "p \<in> set used")
    case True
    with 1 have "p + 1 \<le> skip_used used (p + 1)" by simp
    with True show ?thesis by (subst skip_used.simps) simp
  next
    case False
    then show ?thesis by (subst skip_used.simps) simp
  qed
qed

lemma scanPorts_skip:
  "scanPorts avail used p =
     (let q = skip_used used p in
      if 65536 \<le> q then None else if avail q then Some q else scanPorts avail used (q + 1))"
proof (induction used p rule: skip_used.induct)
  case (1 used p)
  show ?case
  proof (cases "p \<in> set used")
    case True
    with 1 show ?thesis
      by (subst scanPorts.simps, subst skip_used.simps) simp
  next
    case False
    then show ?thesis
      by (subst scanPorts.simps, subst skip_used.simps) simp
  qed
qed

text \<open>What a launch leaves behind once its scan has ended, from the candidate \<open>p\<close> on.\<close>

lemma probing_run:
  assumes "map_of (pending sys) i = Some (T_probe a e q)"
    and "q \<notin> set (usedPorts (server sys))" and "q < 65536"
  shows "\<exists>n. run (replicate n (Resume i)) sys =
           settle i
             (case scanPorts (isPortAvailable e) (usedPorts (server sys)) q of
                None \<Rightarrow> (Finished (Thrown ''RangeError [ERR_SOCKET_BAD_PORT]''), server sys, [])
              | Some p \<Rightarrow>
                  (case spawn_child p a e ((server sys)\<lparr>nextPort := p + 1\<rparr>) of
                     (r, s', effs) \<Rightarrow> (Finished (Reply r), s', effs))) sys"
  using assms
proof (induction "65536 - q" arbitrary: sys q rule: less_induct)
  case less
  let ?s = "server sys"
  let ?used = "usedPorts ?s"
  let ?avail = "isPortAvailable e"
  let ?done = "\<lambda>found s0. case found of
                None \<Rightarrow> (Finished (Thrown ''RangeError [ERR_SOCKET_BAD_PORT]''), s0, [])
              | Some p \<Rightarrow>
                  (case spawn_child p a e (s0\<lparr>nextPort := p + 1\<rparr>) of
                     (r, s', effs) \<Rightarrow> (Finished (Reply r), s', effs))"
  from less.prems have here: "scanPorts ?avail ?used q =
      (if ?avail q then Some q else scanPorts ?avail ?used (q + 1))"
    by (subst scanPorts.simps) simp
  from less.prems(1) have one: "run [Resume i] sys = settle i (start_probed a e q ?s) sys"
    by simp
  show ?case
  proof (cases "?avail q")
    case True
    with here one have "run (replicate 1 (Resume i)) sys = settle i (?done (scanPorts ?avail ?used q) ?s) sys"
      by (simp add: start_probed_def)
    then show ?thesis by blast
  next
    case False
    let ?q' = "skip_used ?used (q + 1)"
    from False here have next_eq: "scanPorts ?avail ?used q = scanPorts ?avail ?used (q + 1)"
      by simp
    show ?thesis
    proof (cases "65536 \<le> ?q'")
      case True
      then have "scanPorts ?avail ?used (q + 1) = None"
        by (subst scanPorts_skip) simp
      with next_eq False True one
      have "run (replicate 1 (Resume i)) sys = settle i (?done (scanPorts ?avail ?used q) ?s) sys"
        by (simp add: start_probed_def probe_next_def)
      then show ?thesis by blast
    next
      case small: False
      let ?sys1 = "settle i (Suspended (T_probe a e ?q'), ?s, []) sys"
      from False small one have step1: "run [Resume i] sys = ?sys1"
        by (simp add: start_probed_def probe_next_def)
      have srv: "server ?sys1 = ?s" by simp
      have pend: "map_of (pending ?sys1) i = Some (T_probe a e ?q')"
        by (simp add: settle_def AList.update_conv')
      have fresh: "?q' \<notin> set (usedPorts (server ?sys1))"
        unfolding srv by (rule skip_used_notin)
      from skip_used_ge [of "q + 1" ?used] have up: "q < ?q'" by simp
      with small have smaller: "65536 - ?q' < 65536 - q" by simp
      from small have bound: "?q' < 65536" by simp
      from less.hyps [OF smaller pend fresh bound] obtain n where
        n: "run (replicate n (Resume i)) ?sys1 =
              settle i (?done (scanPorts ?avail ?used ?q') ?s) ?sys1"
        unfolding srv by blast
      have "scanPorts ?avail ?used (q + 1) = scanPorts ?avail ?used ?q'"
        using small skip_used_notin [of ?used "q + 1"]
        by (subst scanPorts_skip, subst (2) scanPorts.simps) simp
      with next_eq have same: "scanPorts ?avail ?used q = scanPorts ?avail ?used ?q'" by simp
      have fin: "settle i (?done found ?s) ?sys1 = settle i (?done found ?s) sys" for found
        by (cases found; simp add: AList.delete_update_same split: prod.splits)
      have "run (replicate (Suc n) (Resume i)) sys = run (replicate n (Resume i)) (run [Resume i] sys)"
        by simp
      with step1 n same fin
      have "run (replicate (Suc n) (Resume i)) sys = settle i (?done (scanPorts ?avail ?used q) ?s) sys"
        by simp
      then show ?thesis by blast
    qed
  qed
qed

lemma launch_run:
  assumes "map_of (pending sys) (nextCall sys) = None"
  shows "\<exists>n. run (Call (R_start a e) # replicate n (Resume (nextCall sys))) sys =
           settle (nextCall sys)
             (case startNodeProcess a e (server sys) of
                None \<Rightarrow> (Finished (Thrown ''RangeError [ERR_SOCKET_BAD_PORT]''), server sys, [])
              | Some (r, s', effs) \<Rightarrow> (Finished (Reply r), s', effs))
             (sys\<lparr>nextCall := nextCall sys + 1\<rparr>)"
proof -
  let ?i = "nextCall sys"
  let ?s = "server sys"
  let ?sys0 = "sys\<lparr>nextCall := ?i + 1\<rparr>"
  let ?used = "usedPorts ?s"
  let ?avail = "isPortAvailable e"
  let ?path = "resolve e (workingDir a e) (script a)"
  let ?goal = "\<lambda>n. run (Call (R_start a e) # replicate n (Resume ?i)) sys =
           settle ?i
             (case startNodeProcess a e ?s of
                None \<Rightarrow> (Finished (Thrown ''RangeError [ERR_SOCKET_BAD_PORT]''), ?s, [])
              | Some (r, s', effs) \<Rightarrow> (Finished (Reply r), s', effs)) ?sys0"
  have call: "run (Call (R_start a e) # acts) sys = run acts (settle ?i (start_enter a e ?s) ?sys0)"
    for acts by simp
  show ?thesis
  proof (cases "existsSync e ?path")
    case False
    then have "?goal 0"
      by (simp add: start_enter_def startNodeProcess_def)
    then show ?thesis by blast
  next
    case True
    let ?q = "skip_used ?used (nextPort ?s)"
    from True have whole: "startNodeProcess a e ?s =
        (case scanPorts ?avail ?used (nextPort ?s) of None \<Rightarrow> None
         | Some p \<Rightarrow> Some (spawn_child p a e (?s\<lparr>nextPort := p + 1\<rparr>)))"
      by (simp add: startNodeProcess_def findAvailablePort_def split: option.splits)
    show ?thesis
    proof (cases "65536 \<le> ?q")
      case over: True
      then have "scanPorts ?avail ?used (nextPort ?s) = None"
        by (subst scanPorts_skip) simp
      with True over whole have "?goal 0"
        by (simp add: start_enter_def probe_next_def)
      then show ?thesis by blast
    next
      case small: False
      let ?sys1 = "settle ?i (Suspended (T_probe a e ?q), ?s, []) ?sys0"
      from True small have entered: "settle ?i (start_enter a e ?s) ?sys0 = ?sys1"
        by (simp add: start_enter_def probe_next_def)
      have srv: "server ?sys1 = ?s" by simp
      have pend: "map_of (pending ?sys1) ?i = Some (T_probe a e ?q)"
        by (simp add: settle_def AList.update_conv')
      have fresh: "?q \<notin> set (usedPorts (server ?sys1))"
        unfolding srv by (rule skip_used_notin)
      from small have bound: "?q < 65536" by simp
      from probing_run [OF pend fresh bound] obtain n where
        n: "run (replicate n (Resume ?i)) ?sys1 =
              settle ?i
                (case scanPorts ?avail ?used ?q of
                   None \<Rightarrow> (Finished (Thrown ''RangeError [ERR_SOCKET_BAD_PORT]''), ?s, [])
                 | Some p \<Rightarrow>
                     (case spawn_child p a e (?s\<lparr>nextPort := p + 1\<rparr>) of
                        (r, s', effs) \<Rightarrow> (Finished (Reply r), s', effs))) ?sys1"
        unfolding srv by blast
      have same: "scanPorts ?avail ?used (nextPort ?s) = scanPorts ?avail ?used ?q"
        using small skip_used_notin [of ?used "nextPort ?s"]
        by (subst scanPorts_skip, subst (2) scanPorts.simps) simp
      have "?goal n"
        unfolding call entered n whole same
        by (cases "scanPorts ?avail ?used ?q")
           (simp_all add: AList.delete_update_same split: prod.splits)
      then show ?thesis by blast
    qed
  qed
qed

lemma setBreakpoint_split:
  assumes "active_client s = Some c"
  shows "setBreakpoint a resp during s =
           (case setBreakpoint_reply a resp (deliver_all during s) of
              (r, s') \<Rightarrow> (r, s', [Debugger_setBreakpointByUrl c (line a - 1) (file_url a) (condition a)]))"
  using assms
  by (simp add: setBreakpoint_def setBreakpoint_reply_def Let_def
      split: outcome.splits option.splits)

lemma setBreakpoint_run:
  assumes "map_of (pending sys) (nextCall sys) = None"
    and "active_client (server sys) = Some c"
  shows "server (run (Call (R_setBreakpoint a resp) # map Notify during @ [Resume (nextCall sys)]) sys) =
           fst (snd (setBreakpoint a resp during (server sys)))"
    and "replies (run (Call (R_setBreakpoint a resp) # map Notify during @ [Resume (nextCall sys)]) sys) =
           replies sys @ [(nextCall sys, Reply (fst (setBreakpoint a resp during (server sys))))]"
    and "sent (run (Call (R_setBreakpoint a resp) # map Notify during @ [Resume (nextCall sys)]) sys) =
           sent sys @ snd (snd (setBreakpoint a resp during (server sys)))"
proof -
  let ?i = "nextCall sys"
  let ?t = "T_setBreakpoint a resp c"
  let ?eff = "[Debugger_setBreakpointByUrl c (line a - 1) (file_url a) (condition a)]"
  let ?sys1 = "settle ?i (Suspended ?t, server sys, ?eff) (sys\<lparr>nextCall := ?i + 1\<rparr>)"
  let ?sys2 = "?sys1\<lparr>server := deliver_all during (server sys)\<rparr>"
  from assms(2) have "run (Call (R_setBreakpoint a resp) # map Notify during @ [Resume ?i]) sys =
      run [Resume ?i] (run (map Notify during) ?sys1)"
    by (simp add: run_append)
  also have "run (map Notify during) ?sys1 = ?sys2"
    by (simp add: run_notify)
  finally have whole: "run (Call (R_setBreakpoint a resp) # map Notify during @ [Resume ?i]) sys =
      step (Resume ?i) ?sys2"
    by simp
  have pend: "map_of (pending ?sys2) ?i = Some ?t"
    by (simp add: settle_def AList.update_conv')
  obtain r s' where rep: "setBreakpoint_reply a resp (deliver_all during (server sys)) = (r, s')"
    by (cases "setBreakpoint_reply a resp (deliver_all during (server sys))")
  with setBreakpoint_split [OF assms(2), of a resp during]
  have comp: "setBreakpoint a resp during (server sys) = (r, s', ?eff)"
    by simp
  from pend rep have fin: "step (Resume ?i) ?sys2 = settle ?i (Finished (Reply r), s', []) ?sys2"
    by simp
  show "server (run (Call (R_setBreakpoint a resp) # map Notify during @ [Resume ?i]) sys) =
           fst (snd (setBreakpoint a resp during (server sys)))"
    unfolding whole fin comp by simp
  show "replies (run (Call (R_setBreakpoint a resp) # map Notify during @ [Resume ?i]) sys) =
           replies sys @ [(?i, Reply (fst (setBreakpoint a resp during (server sys))))]"
    unfolding whole fin comp by (simp add: settle_def)
  show "sent (run (Call (R_setBreakpoint a resp) # map Notify during @ [Resume ?i]) sys) =
           sent sys @ snd (snd (setBreakpoint a resp during (server sys)))"
    unfolding whole fin comp by (simp add: settle_def)
qed

lemma setBreakpoint_detached_run:
  assumes "map_of (pending sys) (nextCall sys) = None"
    and "active_client (server sys) = None"
  shows "run [Call (R_setBreakpoint a resp)] sys =
           sys\<lparr>nextCall := nextCall sys + 1,
               replies := replies sys @ [(nextCall sys, Reply (fst (setBreakpoint a resp during (server sys))))]\<rparr>"
proof -
  from assms(1) have "nextCall sys \<notin> fst ` set (pending sys)"
    by (simp add: map_of_eq_None_iff)
  then have "AList.delete (nextCall sys) (pending sys) = pending sys"
    by simp
  with assms(2) show ?thesis
    by (simp add: setBreakpoint_def)
qed

lemma send_only_run:
  assumes "map_of (pending sys) (nextCall sys) = None"
    and "enter req (server sys) = send_only (server sys) (r, server sys, effs)"
  shows "run [Call req, Resume (nextCall sys)] sys =
           sys\<lparr>nextCall := nextCall sys + 1,
               replies := replies sys @ [(nextCall sys, Reply r)],
               sent := sent sys @ effs\<rparr>"
proof -
  let ?i = "nextCall sys"
  from assms(1) have "?i \<notin> fst ` set (pending sys)"
    by (simp add: map_of_eq_None_iff)
  then have del: "AList.delete ?i (pending sys) = pending sys"
    by simp
  show ?thesis
  proof (cases "active_client (server sys)")
    case None
    with assms(2) have "step (Call req) sys =
        sys\<lparr>nextCall := ?i + 1, replies := replies sys @ [(?i, Reply r)], sent := sent sys @ effs\<rparr>"
      by (simp add: send_only_def del)
    with assms(1) show ?thesis by simp
  next
    case (Some c)
    with assms(2) have "step (Call req) sys =
        sys\<lparr>nextCall := ?i + 1, pending := AList.update ?i (T_reply r) (pending sys),
            sent := sent sys @ effs\<rparr>"
      by (simp add: send_only_def)
    then show ?thesis
      by (simp add: AList.update_conv' AList.delete_update_same del)
  qed
qed

lemma step_pause_evaluate_run:
  assumes "map_of (pending sys) (nextCall sys) = None"
  shows "run [Call (R_step act r1), Resume (nextCall sys)] sys =
           sys\<lparr>nextCall := nextCall sys + 1,
               replies := replies sys @ [(nextCall sys, Reply (fst (stepDebug act r1 (server sys))))],
               sent := sent sys @ snd (snd (stepDebug act r1 (server sys)))\<rparr>"
    and "run [Call (R_pause r2), Resume (nextCall sys)] sys =
           sys\<lparr>nextCall := nextCall sys + 1,
               replies := replies sys @ [(nextCall sys, Reply (fst (pauseExecution r2 (server sys))))],
               sent := sent sys @ snd (snd (pauseExecution r2 (server sys)))\<rparr>"
    and "run [Call (R_evaluate expr r3), Resume (nextCall sys)] sys =
           sys\<lparr>nextCall := nextCall sys + 1,
               replies := replies sys @ [(nextCall sys, Reply (fst (evaluateExpression expr r3 (server sys))))],
               sent := sent sys @ snd (snd (evaluateExpression expr r3 (server sys)))\<rparr>"
proof -
  have s1: "stepDebug act r1 (server sys) =
      (fst (stepDebug act r1 (server sys)), server sys, snd (snd (stepDebug act r1 (server sys))))"
    by (simp add: stepDebug_def split: option.splits outcome.splits)
  have s2: "pauseExecution r2 (server sys) =
      (fst (pauseExecution r2 (server sys)), server sys, snd (snd (pauseExecution r2 (server sys))))"
    by (simp add: pauseExecution_def split: option.splits outcome.splits)
  have s3: "evaluateExpression expr r3 (server sys) =
      (fst (evaluateExpression expr r3 (server sys)), server sys,
       snd (snd (evaluateExpression expr r3 (server sys))))"
    by (simp add: evaluateExpression_def split: option.splits outcome.splits)
  show "run [Call (R_step act r1), Resume (nextCall sys)] sys =
           sys\<lparr>nextCall := nextCall sys + 1,
               replies := replies sys @ [(nextCall sys, Reply (fst (stepDebug act r1 (server sys))))],
               sent := sent sys @ snd (snd (stepDebug act r1 (server sys)))\<rparr>"
    by (rule send_only_run [OF assms]) (subst s1 [symmetric], simp)
  show "run [Call (R_pause r2), Resume (nextCall sys)] sys =
           sys\<lparr>nextCall := nextCall sys + 1,
               replies := replies sys @ [(nextCall sys, Reply (fst (pauseExecution r2 (server sys))))],
               sent := sent sys @ snd (snd (pauseExecution r2 (server sys)))\<rparr>"
    by (rule send_only_run [OF assms]) (subst s2 [symmetric], simp)
  show "run [Call (R_evaluate expr r3), Resume (nextCall sys)] sys =
           sys\<lparr>nextCall := nextCall sys + 1,
               replies := replies sys @ [(nextCall sys, Reply (fst (evaluateExpression expr r3 (server sys))))],
               sent := sent sys @ snd (snd (evaluateExpression expr r3 (server sys)))\<rparr>"
    by (rule send_only_run [OF assms]) (subst s3 [symmetric], simp)
qed

section \<open>Process registry: launch and termination\<close>

text \<open>
  C10.  A launch whose script, resolved against the given working directory (or the
  current one), does not exist returns the script-not-found result; the server state is
  the one before the call (registry, cursor and used ports) and nothing was spawned.
\<close>

theorem launch_missing_script:
  assumes "\<not> existsSync e (resolve e (workingDir a e) (script a))"
  shows "startNodeProcess a e s =
           Some (ToolResult (ScriptNotFound (resolve e (workingDir a e) (script a))) True, s, [])"
  using assms by (simp add: startNodeProcess_def)

theorem launch_missing_script_witness:
  "\<not> existsSync (example_env False)
        (resolve (example_env False) (workingDir example_args (example_env False))
           (script example_args))
   \<and> startNodeProcess example_args (example_env False) initial =
       Some (ToolResult (ScriptNotFound ''/tmp/a.js'') True, initial, [])"
proof -
  have h: "\<not> existsSync (example_env False)
        (resolve (example_env False) (workingDir example_args (example_env False))
           (script example_args))"
    by (simp add: example_env_def)
  have p: "resolve (example_env False) (workingDir example_args (example_env False))
             (script example_args) = ''/tmp/a.js''"
    by (simp add: example_env_def example_args_def workingDir_def)
  from launch_missing_script [OF h, of initial] h p show ?thesis by simp
qed

text \<open>
  C2.  The exit observer releases the port of the entry it removes, and a second kill
  of the same pid is answered with process-not-found.  killProcess, however, removes the
  entry without touching the used-port set, and the exit observer that runs afterwards
  finds no entry and returns at once: after launch, kill and exit, port 9229 is still in
  the used-port set, whereas after launch and exit alone the set is empty.
\<close>

theorem kill_then_exit_keeps_port:
  "server (run (launch_calls @ [Call (R_kill 4242 (Resolves ())), Notify (ExitEvt 4242)]) boot) =
     launched\<lparr>managedProcesses := []\<rparr>
   \<and> usedPorts (launched\<lparr>managedProcesses := []\<rparr>) = [9229]
   \<and> server (run (launch_calls @ [Notify (ExitEvt 4242)]) boot) =
       launched\<lparr>managedProcesses := [], usedPorts := []\<rparr>
   \<and> fst (killProcess 4242 (Resolves ()) (launched\<lparr>managedProcesses := []\<rparr>)) =
       ToolResult (ProcessNotFound 4242) True"
  by (simp add: run_append run_launch)
     (simp add: killProcess_def onExit_def launched_def fresh_session_def detached_def
        Set_delete_def)

section \<open>Debug operations without a session\<close>

text \<open>
  C4.  While the session is detached (connected is false, or there is no client handle),
  set_breakpoint, step_debug, pause_execution and evaluate_expression each return the
  no-active-session error, send nothing, and leave the whole server state as it was.
\<close>

theorem debug_ops_detached:
  assumes "\<not> connected (debugSession s) \<or> client (debugSession s) = None"
  shows "setBreakpoint a r1 during s = (ToolResult NoActiveSession True, s, [])
       \<and> stepDebug act r2 s = (ToolResult NoActiveSession True, s, [])
       \<and> pauseExecution r3 s = (ToolResult NoActiveSession True, s, [])
       \<and> evaluateExpression expr r4 s = (ToolResult NoActiveSession True, s, [])"
proof -
  from assms have "active_client s = None"
    by (auto simp: active_client_def)
  then show ?thesis
    by (simp add: setBreakpoint_def stepDebug_def pauseExecution_def evaluateExpression_def)
qed

theorem debug_ops_detached_witness:
  "connected (debugSession initial) = False
   \<and> setBreakpoint example_breakpoint (Resolves (Some ''1:0'')) [] initial =
       (ToolResult NoActiveSession True, initial, [])
   \<and> stepDebug Continue (Resolves ()) initial = (ToolResult NoActiveSession True, initial, [])
   \<and> pauseExecution (Resolves ()) initial = (ToolResult NoActiveSession True, initial, [])
   \<and> evaluateExpression ''1 + 1'' (Rejects ''closed'') initial =
       (ToolResult NoActiveSession True, initial, [])"
proof -
  have h: "\<not> connected (debugSession initial) \<or> client (debugSession initial) = None"
    by (simp add: initial_def fresh_session_def detached_def)
  have c: "connected (debugSession initial) = False"
    by (simp add: initial_def fresh_session_def detached_def)
  from debug_ops_detached [OF h] c show ?thesis by simp
qed

section \<open>Expression evaluation\<close>

text \<open>
  The request of evaluate_expression while attached, and how its reply is rendered:
  when isPaused is true and the call stack has a first frame, Debugger.evaluateOnCallFrame
  on that frame; in every other case Runtime.evaluate with the context identifier stored
  in the session.  A reply carrying exceptionDetails gives the "Exception: ..." result,
  another result than the "Error evaluating expression: ..." one of a rejected request;
  a reply without a value is rendered from the object's description.
\<close>

lemma evaluate_request_branches:
  assumes "connected (debugSession s)" and "client (debugSession s) = Some c"
  shows "(isPaused (debugSession s) = Some True \<longrightarrow> callStack (debugSession s) = Some (fr # frs) \<longrightarrow>
            snd (snd (evaluateExpression expr resp s)) =
              [Debugger_evaluateOnCallFrame c (callFrameId fr) expr])
       \<and> (isPaused (debugSession s) \<noteq> Some True \<or> callStack (debugSession s) = None
            \<or> callStack (debugSession s) = Some [] \<longrightarrow>
            snd (snd (evaluateExpression expr resp s)) =
              [Runtime_evaluate c expr (currentExecutionContext (debugSession s))])
       \<and> (exceptionDetails r = Some details \<longrightarrow>
            evaluateExpression expr (Resolves r) s =
              (ToolResult (EvalException
                 (or_else (case details of None \<Rightarrow> None | Some ex \<Rightarrow> description ex)
                    ''Unknown error'')) True, s, [evaluate_request expr c (debugSession s)]))
       \<and> (exceptionDetails r = None \<longrightarrow> obj_value (eval_result r) = None \<longrightarrow>
            fst (evaluateExpression expr (Resolves r) s) =
              ToolResult (EvalValue expr (JStr (or_else (description (eval_result r)) ''[Object]'')))
                False)
       \<and> fst (evaluateExpression expr (Rejects err) s) = ToolResult (ErrorEvaluating err) True"
proof -
  from assms have ac: "active_client s = Some c"
    by (simp add: active_client_def)
  have req: "snd (snd (evaluateExpression expr resp s)) = [evaluate_request expr c (debugSession s)]"
    using ac by (cases resp) (simp_all add: evaluateExpression_def)
  have frame: "isPaused (debugSession s) = Some True \<Longrightarrow> callStack (debugSession s) = Some (fr # frs)
      \<Longrightarrow> evaluate_request expr c (debugSession s) = Debugger_evaluateOnCallFrame c (callFrameId fr) expr"
    by (simp add: evaluate_request_def)
  have runtime: "isPaused (debugSession s) \<noteq> Some True \<or> callStack (debugSession s) = None
      \<or> callStack (debugSession s) = Some []
      \<Longrightarrow> evaluate_request expr c (debugSession s) =
          Runtime_evaluate c expr (currentExecutionContext (debugSession s))"
    by (auto simp: evaluate_request_def split: option.splits bool.splits list.splits)
  have thrown: "exceptionDetails r = Some details \<Longrightarrow>
      evaluateExpression expr (Resolves r) s =
        (ToolResult (EvalException
           (or_else (case details of None \<Rightarrow> None | Some ex \<Rightarrow> description ex)
              ''Unknown error'')) True, s, [evaluate_request expr c (debugSession s)])"
    using ac by (simp add: evaluateExpression_def render_reply_def)
  have missing: "exceptionDetails r = None \<Longrightarrow> obj_value (eval_result r) = None \<Longrightarrow>
      fst (evaluateExpression expr (Resolves r) s) =
        ToolResult (EvalValue expr (JStr (or_else (description (eval_result r)) ''[Object]''))) False"
    using ac by (simp add: evaluateExpression_def render_reply_def)
  have rejected: "fst (evaluateExpression expr (Rejects err) s) = ToolResult (ErrorEvaluating err) True"
    using ac by (simp add: evaluateExpression_def)
  from req frame runtime thrown missing rejected show ?thesis by simp
qed

text \<open>
  C5.  The branches of evaluate_expression are those of the lemma above, but the
  context identifier it sends is not the most recently observed one.  The context
  handler is registered
  before Runtime.enable, whose contexts are reported while that request is pending; the
  session object assigned right after it ("Initialize session") carries
  \<open>currentExecutionContext: undefined\<close> and so drops what the handler stored.  In the
  run below context 1 is the last one observed, the attach succeeds, and the
  evaluation that follows, not paused, sends Runtime.evaluate without a context
  identifier.  A context reported after the initialisation is kept and sent.
\<close>

theorem evaluate_drops_observed_context:
  "last_context (launch_calls @ quiet_attach_calls) = Some 1
   \<and> server (run (launch_calls @ quiet_attach_calls) boot) = attached
   \<and> connected (debugSession attached) \<and> client (debugSession attached) = Some 1
   \<and> isPaused (debugSession attached) = Some False
   \<and> currentExecutionContext (debugSession attached) = None
   \<and> evaluateExpression ''x'' (Resolves number_reply) attached =
       (ToolResult (EvalValue ''x'' (JNum 3)) False, attached, [Runtime_evaluate 1 ''x'' None])
   \<and> sent (run (launch_calls @ quiet_attach_calls
                  @ [Call (R_evaluate ''x'' (Resolves number_reply))]) boot) =
       [Spawn [''--inspect-brk=9229'', ''a.js''] ''/tmp'', CDP_connect 9229,
        Debugger_enable 1, Runtime_enable 1, Debugger_pause 1,
        Runtime_runIfWaitingForDebugger 1, Runtime_evaluate 1 ''x'' None]
   \<and> snd (snd (evaluateExpression ''x'' (Resolves number_reply)
                   (deliver (ContextCreatedEvt 2) attached))) =
       [Runtime_evaluate 1 ''x'' (Some 2)]"
proof -
  have seen: "last_context (launch_calls @ quiet_attach_calls) = Some 1"
    by (simp add: last_context_def launch_calls_def quiet_attach_calls_list)
  have state: "connected (debugSession attached)" "client (debugSession attached) = Some 1"
    "isPaused (debugSession attached) = Some False"
    "currentExecutionContext (debugSession attached) = None"
    by (simp_all add: attached_def attach_session_def)
  have call: "evaluateExpression ''x'' (Resolves number_reply) attached =
       (ToolResult (EvalValue ''x'' (JNum 3)) False, attached, [Runtime_evaluate 1 ''x'' None])"
    by (simp add: evaluateExpression_def active_client_def evaluate_request_def render_reply_def
        number_reply_def state)
  have wire: "sent (run (launch_calls @ quiet_attach_calls
                  @ [Call (R_evaluate ''x'' (Resolves number_reply))]) boot) =
       [Spawn [''--inspect-brk=9229'', ''a.js''] ''/tmp'', CDP_connect 9229,
        Debugger_enable 1, Runtime_enable 1, Debugger_pause 1,
        Runtime_runIfWaitingForDebugger 1, Runtime_evaluate 1 ''x'' None]"
    by (simp add: launch_calls_def quiet_attach_calls_list boot_def start_enter_def
        probe_next_def start_probed_def spawn_child_def example_args_def example_env_def
        initial_def workingDir_def register_def nodeArgs_def digits_9229 Set_add_def
        skip_used_fresh quiet_attach_def fresh_session_def detached_def settle_def
        attach_session_def send_only_def evaluateExpression_def active_client_def
        evaluate_request_def render_reply_def number_reply_def)
  have later: "snd (snd (evaluateExpression ''x'' (Resolves number_reply)
                   (deliver (ContextCreatedEvt 2) attached))) =
       [Runtime_evaluate 1 ''x'' (Some 2)]"
    by (simp add: evaluateExpression_def active_client_def evaluate_request_def
        onContextCreated_def attached_def attach_session_def)
  from seen run_quiet_attach(1) state call wire later show ?thesis by simp
qed

section \<open>Attaching\<close>









section \<open>Pause state and call stack\<close>



section \<open>Breakpoint table\<close>

text \<open>
  C7.  In a state reached by a run, when two consecutive set_breakpoint calls with the
  same file and line (whatever their conditions) both succeed, the table holds exactly
  one entry under that key after the second call, its identifier is the one the second
  reply carried, the table has not grown, and its keys are pairwise distinct.
\<close>

theorem setBreakpoint_same_key_twice:
  assumes reach: "server (run acts boot) = s"
    and first: "setBreakpoint a r1 ev1 s = (ToolResult (BreakpointSet f1 l1 c1 id1) False, s1, eff1)"
    and second: "setBreakpoint a' r2 ev2 s1 = (ToolResult (BreakpointSet f2 l2 c2 id2) False, s2, eff2)"
    and same: "file_url a' = file_url a" "line a' = line a"
  shows "\<exists>t1 t2. breakpoints (debugSession s1) = Some t1
           \<and> breakpoints (debugSession s2) = Some t2
           \<and> map_of t1 (breakpointKey a) = Some id1
           \<and> map_of t2 (breakpointKey a) = Some id2
           \<and> r2 = Resolves (Some id2)
           \<and> length t2 = length t1
           \<and> distinct (map fst t2)
           \<and> length (filter (\<lambda>kv. fst kv = breakpointKey a) t2) = 1"
proof -
  from setBreakpoint_success [OF first] obtain t where
    t: "breakpoints (debugSession (deliver_all ev1 s)) = Some t"
    and t1: "breakpoints (debugSession s1) = Some (AList.update (breakpointKey a) id1 t)"
    by blast
  let ?t1 = "AList.update (breakpointKey a) id1 t"
  from setBreakpoint_success [OF second] obtain t' where
    t': "breakpoints (debugSession (deliver_all ev2 s1)) = Some t'"
    and t2: "breakpoints (debugSession s2) = Some (AList.update (breakpointKey a') id2 t')"
    and r2: "r2 = Resolves (Some id2)"
    by blast
  from deliver_all_breakpoints [OF t'] t1 have t'_eq: "t' = ?t1" by simp
  from same have key: "breakpointKey a' = breakpointKey a"
    by (simp add: breakpointKey_def)
  let ?t2 = "AList.update (breakpointKey a) id2 ?t1"
  from t2 t'_eq key have s2: "breakpoints (debugSession s2) = Some ?t2" by simp
  from deliver_all_breakpoints [OF t] reach
  have "breakpoints (debugSession (server (run acts boot))) = Some t" by simp
  then have "distinct (map fst t)" by (rule breakpoint_keys_distinct)
  then have d2: "distinct (map fst ?t2)"
    by (intro AList.distinct_update)
  have m1: "map_of ?t1 (breakpointKey a) = Some id1"
    and m2: "map_of ?t2 (breakpointKey a) = Some id2"
    by (simp_all add: AList.update_conv')
  from m1 have len: "length ?t2 = length ?t1"
    by (rule length_update_present)
  from d2 m2 have one: "length (filter (\<lambda>kv. fst kv = breakpointKey a) ?t2) = 1"
    by (rule one_entry_per_key)
  from t1 s2 m1 m2 r2 len d2 one show ?thesis by blast
qed

theorem setBreakpoint_same_key_twice_witness:
  "server (run (launch_calls @ quiet_attach_calls) boot) = attached
   \<and> fst (setBreakpoint example_breakpoint (Resolves (Some ''1:0'')) [] attached) =
       ToolResult (BreakpointSet ''file:///tmp/a.js'' 5 None ''1:0'') False
   \<and> fst (setBreakpoint (example_breakpoint\<lparr>condition := Some ''x > 1''\<rparr>)
              (Resolves (Some ''2:0'')) [] with_breakpoint) =
       ToolResult (BreakpointSet ''file:///tmp/a.js'' 5 (Some ''x > 1'') ''2:0'') False
   \<and> breakpoints (debugSession with_breakpoint) = Some [(''file:///tmp/a.js:5'', ''1:0'')]
   \<and> (\<exists>t2. breakpoints (debugSession (fst (snd
          (setBreakpoint (example_breakpoint\<lparr>condition := Some ''x > 1''\<rparr>)
              (Resolves (Some ''2:0'')) [] with_breakpoint)))) = Some t2
         \<and> map_of t2 ''file:///tmp/a.js:5'' = Some ''2:0''
         \<and> length t2 = 1
         \<and> length (filter (\<lambda>kv. fst kv = ''file:///tmp/a.js:5'') t2) = 1)"
proof -
  have t1: "breakpoints (debugSession with_breakpoint) = Some [(''file:///tmp/a.js:5'', ''1:0'')]"
    by (simp add: with_breakpoint_def)
  have same: "file_url (example_breakpoint\<lparr>condition := Some ''x > 1''\<rparr>) = file_url example_breakpoint"
    "line (example_breakpoint\<lparr>condition := Some ''x > 1''\<rparr>) = line example_breakpoint"
    by simp_all
  from setBreakpoint_same_key_twice [OF run_quiet_attach(1) first_breakpoint second_breakpoint same]
  obtain ta tb where "breakpoints (debugSession with_breakpoint) = Some ta"
    and "breakpoints (debugSession (with_breakpoint\<lparr>debugSession := (debugSession with_breakpoint)
        \<lparr>breakpoints := Some [(''file:///tmp/a.js:5'', ''2:0'')]\<rparr>\<rparr>)) = Some tb"
    and "map_of tb (breakpointKey example_breakpoint) = Some ''2:0''"
    and "length tb = length ta"
    and "length (filter (\<lambda>kv. fst kv = breakpointKey example_breakpoint) tb) = 1"
    by blast
  with t1 have "breakpoints (debugSession (fst (snd
          (setBreakpoint (example_breakpoint\<lparr>condition := Some ''x > 1''\<rparr>)
              (Resolves (Some ''2:0'')) [] with_breakpoint)))) = Some tb
         \<and> map_of tb ''file:///tmp/a.js:5'' = Some ''2:0''
         \<and> length tb = 1
         \<and> length (filter (\<lambda>kv. fst kv = ''file:///tmp/a.js:5'') tb) = 1"
    by (simp add: second_breakpoint key_example)
  then have "\<exists>t2. breakpoints (debugSession (fst (snd
          (setBreakpoint (example_breakpoint\<lparr>condition := Some ''x > 1''\<rparr>)
              (Resolves (Some ''2:0'')) [] with_breakpoint)))) = Some t2
         \<and> map_of t2 ''file:///tmp/a.js:5'' = Some ''2:0''
         \<and> length t2 = 1
         \<and> length (filter (\<lambda>kv. fst kv = ''file:///tmp/a.js:5'') t2) = 1"
    by blast
  with run_quiet_attach(1) t1 show ?thesis
    by (simp add: first_breakpoint second_breakpoint)
qed

section \<open>Port allocator\<close>

text \<open>
  C6.  The allocator skips the ports of the used-port set and advances the cursor past
  the port it returns, but a port enters the used-port set only after the child was
  spawned, and the probe of a candidate is awaited in between.  Two launches that
  overlap at that await both read the cursor 9229 and both probe 9229 while it is free.
  When the first has spawned pid 4242 and registered port 9229, the second is resumed,
  is returned 9229 too and spawns pid 4243 on it: the port returned is then in the
  used-port set and held by a live process, and the registry holds two live processes
  on the same port.  The same two launches carried out one after the other get 9229 and
  9230.
\<close>

theorem concurrent_launches_share_port:
  "racing_launches = [Call (R_start example_args (example_env True)),
      Call (R_start example_args second_env), Resume 0] @ [Resume 1]
   \<and> usedPorts (server (run [Call (R_start example_args (example_env True)),
         Call (R_start example_args second_env), Resume 0] boot)) = [9229]
   \<and> registry_ports (server (run [Call (R_start example_args (example_env True)),
         Call (R_start example_args second_env), Resume 0] boot)) = [9229]
   \<and> map_of (pending (run [Call (R_start example_args (example_env True)),
         Call (R_start example_args second_env), Resume 0] boot)) 1 =
       Some (T_probe example_args second_env 9229)
   \<and> replies (run racing_launches boot) =
       [(0, Reply (ToolResult (Started 4242 9229) False)),
        (1, Reply (ToolResult (Started 4243 9229) False))]
   \<and> map fst (managedProcesses (server (run racing_launches boot))) = [4242, 4243]
   \<and> registry_ports (server (run racing_launches boot)) = [9229, 9229]
   \<and> registry_ports (server (run [Call (R_start example_args (example_env True)), Resume 0,
         Call (R_start example_args second_env), Resume 1] boot)) = [9229, 9230]"
proof -
  have before: "usedPorts (server (run [Call (R_start example_args (example_env True)),
         Call (R_start example_args second_env), Resume 0] boot)) = [9229]"
    "registry_ports (server (run [Call (R_start example_args (example_env True)),
         Call (R_start example_args second_env), Resume 0] boot)) = [9229]"
    "map_of (pending (run [Call (R_start example_args (example_env True)),
         Call (R_start example_args second_env), Resume 0] boot)) 1 =
       Some (T_probe example_args second_env 9229)"
    by (simp_all add: boot_def start_enter_def probe_next_def start_probed_def
      spawn_child_def example_args_def example_env_def second_env_def initial_def workingDir_def
      register_def nodeArgs_def digits_9229 Set_add_def skip_used_fresh registry_ports_def
      settle_def)
  have after: "map fst (managedProcesses (server (run racing_launches boot))) = [4242, 4243]"
    "registry_ports (server (run racing_launches boot)) = [9229, 9229]"
    by (simp_all add: run_racing registry_ports_def)
  have skip: "skip_used [9229] 9230 = 9230"
    by (simp add: skip_used_fresh)
  have apart: "registry_ports (server (run [Call (R_start example_args (example_env True)),
         Resume 0, Call (R_start example_args second_env), Resume 1] boot)) = [9229, 9230]"
    by (simp add: boot_def start_enter_def probe_next_def start_probed_def
      spawn_child_def example_args_def example_env_def second_env_def initial_def workingDir_def
      register_def nodeArgs_def Set_add_def skip_used_fresh skip registry_ports_def settle_def)
  from before after apart run_racing(2) show ?thesis
    by (simp add: racing_launches_def)
qed

end
